theory Spec2Isabelle
  imports
    Complex_Main
    "HOL-Library.Finite_Map"
    "HOL-Library.Char_ord"
    "HOL-Library.List_Lexorder"
    "HOL-Library.Sublist"
begin

section \<open>Single-precision arithmetic\<close>

text \<open>
  The sources compute with the C++ type \<^verbatim>\<open>float\<close>.  It is embedded as IEEE 754
  binary32 with round-to-nearest, ties-to-even, every operation rounded on its own
  (no extended intermediate precision, no fused multiply-add); literals with suffix
  \<^verbatim>\<open>f\<close> and \<^verbatim>\<open>std::sqrt\<close> are correctly rounded, and \<^verbatim>\<open>std::abs\<close> is the overload
  for \<^verbatim>\<open>float\<close>.  A finite value is a sign (\<open>True\<close> is negative) and a rational
  magnitude, so both zeros exist; all NaNs are one value.  \<open>round32\<close> rounds an exact
  magnitude to the 24-bit significand with the exponent range of binary32, subnormals
  included, and overflows to infinity.
\<close>

datatype float = NaN | Infty bool | Fin bool rat

definition pow2 :: "int \<Rightarrow> rat" where
  "pow2 e = (if 0 \<le> e then 2 ^ nat e else 1 / 2 ^ nat (- e))"

function nbits :: "int \<Rightarrow> int" where
  "nbits n = (if n \<le> 0 then 0 else 1 + nbits (n div 2))"
  by auto
termination
  by (relation "measure nat") auto

declare nbits.simps [simp del]

text \<open>
  \<open>ilog2 q\<close> is the binary exponent of a positive rational, \<open>2^e \<le> q < 2^(e+1)\<close>,
  read off the bit length of \<open>\<lfloor>q\<rfloor>\<close> when \<open>1 \<le> q\<close> and of \<open>\<lceil>1/q\<rceil> - 1\<close> otherwise.
\<close>

definition ilog2 :: "rat \<Rightarrow> int" where
  "ilog2 q = (if 1 \<le> q then nbits \<lfloor>q\<rfloor> - 1 else - nbits (\<lceil>1 / q\<rceil> - 1))"

definition rnd_even :: "rat \<Rightarrow> int" where
  "rnd_even x = (let f = \<lfloor>x\<rfloor>; d = x - of_int f
                 in if d < 1 / 2 then f
                    else if 1 / 2 < d then f + 1
                    else if even f then f else f + 1)"

definition ulp_exp :: "rat \<Rightarrow> int" where
  "ulp_exp q = max (ilog2 q) (- 126) - 23"

definition round_mag :: "rat \<Rightarrow> rat" where
  "round_mag q = (if q = 0 then 0
                  else of_int (rnd_even (q / pow2 (ulp_exp q))) * pow2 (ulp_exp q))"

definition round32 :: "bool \<Rightarrow> rat \<Rightarrow> float" where
  "round32 s q = (let r = round_mag q in if pow2 128 \<le> r then Infty s else Fin s r)"

text \<open>A decimal literal with suffix \<^verbatim>\<open>f\<close>: the binary32 value nearest to it.\<close>

definition lit :: "rat \<Rightarrow> float" where
  "lit q = round32 (q < 0) \<bar>q\<bar>"

definition sval :: "bool \<Rightarrow> rat \<Rightarrow> rat" where
  "sval s p = (if s then - p else p)"

fun fneg :: "float \<Rightarrow> float" where
  "fneg NaN = NaN"
| "fneg (Infty s) = Infty (\<not> s)"
| "fneg (Fin s p) = Fin (\<not> s) p"

text \<open>\<^verbatim>\<open>std::abs\<close> on a float.\<close>

fun fabs :: "float \<Rightarrow> float" where
  "fabs NaN = NaN"
| "fabs (Infty s) = Infty False"
| "fabs (Fin s p) = Fin False p"

fun fmul :: "float \<Rightarrow> float \<Rightarrow> float" where
  "fmul (Fin s p) (Fin t q) = round32 (s \<noteq> t) (p * q)"
| "fmul (Infty s) (Infty t) = Infty (s \<noteq> t)"
| "fmul (Infty s) (Fin t q) = (if q = 0 then NaN else Infty (s \<noteq> t))"
| "fmul (Fin s p) (Infty t) = (if p = 0 then NaN else Infty (s \<noteq> t))"
| "fmul NaN _ = NaN"
| "fmul _ NaN = NaN"

text \<open>
  An exact sum of zero is \<open>-0\<close> only when both operands are negative (two negative
  zeros); otherwise it is \<open>+0\<close>.
\<close>

fun fadd :: "float \<Rightarrow> float \<Rightarrow> float" where
  "fadd (Fin s p) (Fin t q) =
     (let x = sval s p + sval t q
      in if x = 0 then Fin (s \<and> t) 0 else round32 (x < 0) \<bar>x\<bar>)"
| "fadd (Infty s) (Infty t) = (if s = t then Infty s else NaN)"
| "fadd (Infty s) (Fin t q) = Infty s"
| "fadd (Fin s p) (Infty t) = Infty t"
| "fadd NaN _ = NaN"
| "fadd _ NaN = NaN"

definition fsub :: "float \<Rightarrow> float \<Rightarrow> float" where
  "fsub x y = fadd x (fneg y)"

text \<open>The comparisons \<^verbatim>\<open><\<close>, \<^verbatim>\<open>>\<close> and \<^verbatim>\<open>==\<close>: false whenever an operand is NaN.\<close>

fun flt :: "float \<Rightarrow> float \<Rightarrow> bool" where
  "flt (Fin s p) (Fin t q) = (sval s p < sval t q)"
| "flt (Infty s) (Infty t) = (s \<and> \<not> t)"
| "flt (Infty s) (Fin t q) = s"
| "flt (Fin s p) (Infty t) = (\<not> t)"
| "flt NaN _ = False"
| "flt _ NaN = False"

definition fgt :: "float \<Rightarrow> float \<Rightarrow> bool" where
  "fgt x y = flt y x"

fun feq :: "float \<Rightarrow> float \<Rightarrow> bool" where
  "feq (Fin s p) (Fin t q) = (sval s p = sval t q)"
| "feq (Infty s) (Infty t) = (s = t)"
| "feq (Infty s) (Fin t q) = False"
| "feq (Fin s p) (Infty t) = False"
| "feq NaN _ = False"
| "feq _ NaN = False"

text \<open>Integer square root, and \<^verbatim>\<open>std::sqrt\<close> correctly rounded.\<close>

function isqrt :: "int \<Rightarrow> int" where
  "isqrt n = (if n < 4 then (if n \<le> 0 then 0 else 1)
              else let r = 2 * isqrt (n div 4)
                   in if (r + 1) * (r + 1) \<le> n then r + 1 else r)"
  by auto
termination
  by (relation "measure nat") auto

declare isqrt.simps [simp del]

definition sqrt_rnd :: "rat \<Rightarrow> int" where
  "sqrt_rnd y = (let n = isqrt \<lfloor>y\<rfloor>; h = (of_int n + 1 / 2) * (of_int n + 1 / 2)
                 in if y < h then n
                    else if h < y then n + 1
                    else if even n then n else n + 1)"

definition sqrt32 :: "rat \<Rightarrow> float" where
  "sqrt32 q = (let u = pow2 (max (ilog2 q div 2) (- 126) - 23);
                   r = of_int (sqrt_rnd (q / (u * u))) * u
               in if pow2 128 \<le> r then Infty False else Fin False r)"

fun fsqrt :: "float \<Rightarrow> float" where
  "fsqrt NaN = NaN"
| "fsqrt (Infty s) = (if s then NaN else Infty False)"
| "fsqrt (Fin s p) = (if p = 0 then Fin s 0 else if s then NaN else sqrt32 p)"

section \<open>Data model\<close>

text \<open>
  Modelled from the spec: the header \<^verbatim>\<open>emotion_engine.h\<close>, which declares
  \<^verbatim>\<open>EmotionCategory\<close>, \<^verbatim>\<open>MusicalAttributes\<close>, \<^verbatim>\<open>EmotionNode\<close> and the class with its
  container \<^verbatim>\<open>nodes_\<close>, is not among the sources.  The categories are the eight tags
  of section 3 of the specification, in the order of the table in
  \<^verbatim>\<open>initializeEmotions\<close>.
\<close>

datatype EmotionCategory =
  Joy | Sadness | Anger | Fear | Surprise | Disgust | Trust | Anticipation

text \<open>
  Modelled from the spec: the members follow the inner aggregate initialiser in
  \<^verbatim>\<open>initializeEmotions\<close> and the uses in \<^verbatim>\<open>compileMusicalParams\<close>.
\<close>

record MusicalAttributes =
  tempoModifier :: float
  mode :: string
  dynamics :: float

text \<open>
  Modelled from the spec: the members follow the aggregate initialiser in
  \<^verbatim>\<open>initializeEmotions\<close> and section 3 of the specification.  The seventh member is
  value-initialised with \<^verbatim>\<open>{}\<close> there and read nowhere; it is kept as an empty
  sequence.  The member \<^verbatim>\<open>id\<close> is called \<open>node_id\<close>; ids are C++ \<^verbatim>\<open>int\<close>s, here
  unbounded integers (the builder counts from 0 to 216).
\<close>

record EmotionNode =
  node_id :: int
  name :: string
  category :: EmotionCategory
  intensity :: float
  valence :: float
  arousal :: float
  related :: "int list"
  musicalAttributes :: MusicalAttributes

text \<open>
  Modelled from the spec: the container \<^verbatim>\<open>nodes_\<close> is used through \<^verbatim>\<open>operator[]\<close>,
  \<^verbatim>\<open>find\<close> and a range-for over key/value pairs, so it is a map from ids to nodes.
  The specification calls it hash-based with unspecified iteration order, so the
  engine carries, next to the map, the sequence \<open>m_order\<close> in which the range-for
  visits the keys.  Nothing is known about that sequence beyond \<open>iteration_ok\<close>: every
  key is visited once.
\<close>

record EmotionEngine =
  m_nodes :: "int \<rightharpoonup> EmotionNode"
  m_order :: "int list"

definition iteration_ok :: "EmotionEngine \<Rightarrow> bool" where
  "iteration_ok e \<longleftrightarrow> distinct (m_order e) \<and> set (m_order e) = dom (m_nodes e)"

text \<open>
  A \<^verbatim>\<open>const EmotionNode*\<close> into the container is the key of the entry together
  with the node stored under it; the null pointer is \<open>None\<close>.
\<close>

type_synonym node_ptr = "(int \<times> EmotionNode) option"

text \<open>\<^verbatim>\<open>std::any\<close>, restricted to the kinds of value the program stores.\<close>

datatype any_value = AInt int | ABool bool | AFloat float | AString string

type_synonym any_map = "(string, any_value) fmap"

record Wound =
  description :: string
  intensity :: float
  source :: string

record RuleBreak =
  ruleType :: string
  severity :: float
  description :: string
  musicalImpact :: any_map

record IntentResult =
  wound :: Wound
  emotion :: node_ptr
  ruleBreaks :: "RuleBreak list"
  musicalParams :: any_map

text \<open>The members \<^verbatim>\<open>engine_\<close>, \<^verbatim>\<open>woundHistory_\<close> and \<^verbatim>\<open>ruleBreaks_\<close>.\<close>

record IntentProcessor =
  m_engine :: EmotionEngine
  m_woundHistory :: "Wound list"
  m_ruleBreaks :: "RuleBreak list"

section \<open>The emotion engine\<close>

definition categoryVariants :: "(EmotionCategory \<times> (string \<times> float \<times> float) list) list" where
  "categoryVariants =
    [(Joy,
      [(''euphoria'', lit 1, lit 1), (''ecstasy'', lit (95 / 100), lit (95 / 100)),
       (''elation'', lit (85 / 100), lit (9 / 10)),
       (''delight'', lit (8 / 10), lit (7 / 10)), (''happiness'', lit (7 / 10), lit (6 / 10)),
       (''contentment'', lit (7 / 10), lit (3 / 10)),
       (''serenity'', lit (6 / 10), lit (2 / 10)), (''satisfaction'', lit (5 / 10), lit (4 / 10)),
       (''cheerfulness'', lit (6 / 10), lit (5 / 10))]),
     (Sadness,
      [(''grief'', lit (- (9 / 10)), lit (7 / 10)), (''despair'', lit (- (95 / 100)), lit (6 / 10)),
       (''sorrow'', lit (- (8 / 10)), lit (5 / 10)),
       (''melancholy'', lit (- (6 / 10)), lit (3 / 10)), (''gloom'', lit (- (5 / 10)), lit (4 / 10)),
       (''disappointment'', lit (- (4 / 10)), lit (3 / 10)),
       (''loneliness'', lit (- (6 / 10)), lit (2 / 10)), (''nostalgia'', lit (- (3 / 10)), lit (2 / 10)),
       (''wistfulness'', lit (- (2 / 10)), lit (15 / 100))]),
     (Anger,
      [(''rage'', lit (- (8 / 10)), lit 1), (''fury'', lit (- (85 / 100)), lit (95 / 100)),
       (''wrath'', lit (- (75 / 100)), lit (9 / 10)),
       (''hostility'', lit (- (6 / 10)), lit (7 / 10)), (''resentment'', lit (- (5 / 10)), lit (5 / 10)),
       (''annoyance'', lit (- (4 / 10)), lit (5 / 10)),
       (''irritation'', lit (- (35 / 100)), lit (45 / 100)),
       (''frustration'', lit (- (45 / 100)), lit (55 / 100)),
       (''bitterness'', lit (- (5 / 10)), lit (4 / 10))]),
     (Fear,
      [(''terror'', lit (- (9 / 10)), lit 1), (''panic'', lit (- (85 / 100)), lit (95 / 100)),
       (''horror'', lit (- (8 / 10)), lit (9 / 10)),
       (''dread'', lit (- (7 / 10)), lit (7 / 10)), (''anxiety'', lit (- (5 / 10)), lit (8 / 10)),
       (''worry'', lit (- (4 / 10)), lit (6 / 10)),
       (''unease'', lit (- (3 / 10)), lit (5 / 10)), (''apprehension'', lit (- (35 / 100)), lit (55 / 100)),
       (''nervousness'', lit (- (3 / 10)), lit (65 / 100))]),
     (Surprise,
      [(''amazement'', lit (6 / 10), lit (95 / 100)), (''astonishment'', lit (5 / 10), lit (9 / 10)),
       (''awe'', lit (4 / 10), lit (7 / 10)),
       (''wonder'', lit (5 / 10), lit (6 / 10)), (''shock'', lit (- (1 / 10)), lit (9 / 10)),
       (''startle'', lit 0, lit (85 / 100)),
       (''bewilderment'', lit (- (1 / 10)), lit (6 / 10)), (''confusion'', lit (- (2 / 10)), lit (5 / 10)),
       (''curiosity'', lit (3 / 10), lit (5 / 10))]),
     (Disgust,
      [(''revulsion'', lit (- (9 / 10)), lit (8 / 10)), (''loathing'', lit (- (85 / 100)), lit (7 / 10)),
       (''abhorrence'', lit (- (8 / 10)), lit (75 / 100)),
       (''contempt'', lit (- (6 / 10)), lit (5 / 10)), (''aversion'', lit (- (5 / 10)), lit (45 / 100)),
       (''distaste'', lit (- (4 / 10)), lit (35 / 100)),
       (''dislike'', lit (- (3 / 10)), lit (3 / 10)), (''disapproval'', lit (- (35 / 100)), lit (4 / 10)),
       (''repugnance'', lit (- (7 / 10)), lit (6 / 10))]),
     (Trust,
      [(''admiration'', lit (8 / 10), lit (5 / 10)), (''adoration'', lit (85 / 100), lit (6 / 10)),
       (''devotion'', lit (75 / 100), lit (55 / 100)),
       (''faith'', lit (7 / 10), lit (4 / 10)), (''confidence'', lit (6 / 10), lit (5 / 10)),
       (''reliance'', lit (5 / 10), lit (35 / 100)),
       (''acceptance'', lit (4 / 10), lit (3 / 10)), (''respect'', lit (55 / 100), lit (4 / 10)),
       (''appreciation'', lit (5 / 10), lit (45 / 100))]),
     (Anticipation,
      [(''eagerness'', lit (7 / 10), lit (85 / 100)), (''excitement'', lit (75 / 100), lit (9 / 10)),
       (''hope'', lit (6 / 10), lit (6 / 10)),
       (''expectation'', lit (4 / 10), lit (55 / 100)), (''vigilance'', lit (1 / 10), lit (7 / 10)),
       (''interest'', lit (35 / 100), lit (5 / 10)),
       (''optimism'', lit (65 / 100), lit (55 / 100)), (''yearning'', lit (2 / 10), lit (6 / 10)),
       (''impatience'', lit (- (1 / 10)), lit (7 / 10))])]"

definition intensityLevels :: "float list" where
  "intensityLevels = [lit 1, lit (6 / 10), lit (3 / 10)]"

text \<open>The body of the innermost loop: the node built for one variant at one tier.\<close>

definition make_node :: "int \<Rightarrow> EmotionCategory \<Rightarrow> string \<times> float \<times> float \<Rightarrow> float \<Rightarrow> EmotionNode" where
  "make_node nodeId cat v tier =
     (case v of (v_name, v_valence, v_arousal) \<Rightarrow>
        let suffix = (if feq tier (lit 1) then ''''
                      else if feq tier (lit (6 / 10)) then ''_mid'' else ''_low'')
        in \<lparr> node_id = nodeId,
             name = v_name @ suffix,
             category = cat,
             intensity = tier,
             valence = fmul v_valence tier,
             arousal = fmul v_arousal tier,
             related = [],
             musicalAttributes =
               \<lparr> tempoModifier =
                     fadd (lit 1) (fmul (fsub (fmul v_arousal tier) (lit (5 / 10))) (lit (5 / 10))),
                   mode = (if fgt v_valence (Fin False 0) then ''major'' else ''minor''),
                   dynamics = tier \<rparr> \<rparr>)"

text \<open>
  \<^verbatim>\<open>initializeEmotions\<close>: three nested loops over the table, the variants of a
  category and the tiers, threading the container and the counter \<^verbatim>\<open>nodeId\<close>.
\<close>

definition store_node ::
  "EmotionCategory \<Rightarrow> string \<times> float \<times> float \<Rightarrow> float \<Rightarrow>
   (int \<rightharpoonup> EmotionNode) \<times> int \<Rightarrow> (int \<rightharpoonup> EmotionNode) \<times> int" where
  "store_node cat v tier st =
     (case st of (nodes, nodeId) \<Rightarrow>
        (nodes(nodeId \<mapsto> make_node nodeId cat v tier), nodeId + 1))"

definition initializeEmotions :: "(int \<rightharpoonup> EmotionNode) \<Rightarrow> (int \<rightharpoonup> EmotionNode)" where
  "initializeEmotions nodes0 =
     fst (fold (\<lambda>(cat, variants).
                  fold (\<lambda>v. fold (\<lambda>tier. store_node cat v tier) intensityLevels) variants)
               categoryVariants (nodes0, 0))"

text \<open>
  The constructor fills an empty container.  The order in which the filled container
  iterates is not determined by the sources, so it is an argument.
\<close>

definition new_EmotionEngine :: "int list \<Rightarrow> EmotionEngine" where
  "new_EmotionEngine ord = \<lparr> m_nodes = initializeEmotions Map.empty, m_order = ord \<rparr>"

text \<open>The sequence of key/value pairs a range-for over the container visits.\<close>

definition entries :: "EmotionEngine \<Rightarrow> (int \<times> EmotionNode) list" where
  "entries e = List.map_filter (\<lambda>k. map_option (Pair k) (m_nodes e k)) (m_order e)"

definition getEmotion :: "EmotionEngine \<Rightarrow> int \<Rightarrow> node_ptr" where
  "getEmotion e emotionId = map_option (Pair emotionId) (m_nodes e emotionId)"

definition findEmotionByName :: "EmotionEngine \<Rightarrow> string \<Rightarrow> node_ptr" where
  "findEmotionByName e nm = List.find (\<lambda>(k, node). name node = nm) (entries e)"

definition calculateDistance :: "EmotionNode \<Rightarrow> EmotionNode \<Rightarrow> float" where
  "calculateDistance a b =
     (let dv = fsub (valence a) (valence b);
          da = fsub (arousal a) (arousal b);
          di = fsub (EmotionNode.intensity a) (EmotionNode.intensity b)
      in fsqrt (fadd (fadd (fmul dv dv) (fmul da da)) (fmul di di)))"

definition getNearbyEmotions :: "EmotionEngine \<Rightarrow> int \<Rightarrow> float \<Rightarrow> (int \<times> EmotionNode) list" where
  "getNearbyEmotions e emotionId threshold =
     (case getEmotion e emotionId of
        None \<Rightarrow> []
      | Some (_, src) \<Rightarrow>
          filter (\<lambda>(k, node). k \<noteq> emotionId \<and> flt (calculateDistance src node) threshold)
                 (entries e))"

section \<open>The intent pipeline\<close>

text \<open>\<^verbatim>\<open>std::tolower\<close> in the C locale, on one byte.\<close>

definition tolower :: "char \<Rightarrow> char" where
  "tolower c = (let n = (of_char c :: nat)
                in if 65 \<le> n \<and> n \<le> 90 then char_of (n + 32) else c)"

text \<open>\<^verbatim>\<open>std::string::find\<close>: the first position of the pattern, \<open>None\<close> for \<^verbatim>\<open>npos\<close>.\<close>

fun str_find :: "string \<Rightarrow> string \<Rightarrow> nat option" where
  "str_find [] pat = (if pat = [] then Some 0 else None)"
| "str_find (c # cs) pat =
     (if prefix pat (c # cs) then Some 0 else map_option Suc (str_find cs pat))"

definition new_IntentProcessor :: "int list \<Rightarrow> IntentProcessor" where
  "new_IntentProcessor ord =
     \<lparr> m_engine = new_EmotionEngine ord, m_woundHistory = [], m_ruleBreaks = [] \<rparr>"

definition processWound :: "IntentProcessor \<Rightarrow> Wound \<Rightarrow> node_ptr \<times> IntentProcessor" where
  "processWound p w =
     (let p' = p\<lparr> m_woundHistory := m_woundHistory p @ [w] \<rparr>;
          desc = map tolower (Wound.description w)
      in if str_find desc ''loss'' \<noteq> None \<or> str_find desc ''grief'' \<noteq> None
           then (findEmotionByName (m_engine p') ''grief'', p')
         else if str_find desc ''anger'' \<noteq> None \<or> str_find desc ''rage'' \<noteq> None
           then (findEmotionByName (m_engine p') ''rage'', p')
         else if str_find desc ''fear'' \<noteq> None \<or> str_find desc ''anxiety'' \<noteq> None
           then (findEmotionByName (m_engine p') ''anxiety'', p')
         else (findEmotionByName (m_engine p') ''melancholy'', p'))"

definition dynamics_break :: "EmotionNode \<Rightarrow> RuleBreak" where
  "dynamics_break em =
     \<lparr> ruleType = ''dynamics'',
       severity = EmotionNode.intensity em,
       description = ''Extreme dynamic contrasts'',
       musicalImpact =
         fmupd ''sudden_changes'' (ABool True)
           (fmupd ''velocity_max'' (AInt 127)
             (fmupd ''velocity_min'' (AInt 10) fmempty)) \<rparr>"

definition harmony_break :: "EmotionNode \<Rightarrow> RuleBreak" where
  "harmony_break em =
     \<lparr> ruleType = ''harmony'',
       severity = fabs (valence em),
       description = ''Dissonant intervals and clusters'',
       musicalImpact =
         fmupd ''cluster_probability'' (AFloat (fabs (valence em)))
           (fmupd ''allow_dissonance'' (ABool True) fmempty) \<rparr>"

definition rhythm_break :: "EmotionNode \<Rightarrow> RuleBreak" where
  "rhythm_break em =
     \<lparr> ruleType = ''rhythm'',
       severity = arousal em,
       description = ''Irregular rhythms and syncopation'',
       musicalImpact =
         fmupd ''irregular_meters'' (ABool True)
           (fmupd ''syncopation_level'' (AFloat (arousal em)) fmempty) \<rparr>"

definition emotionToRuleBreaks :: "IntentProcessor \<Rightarrow> EmotionNode \<Rightarrow> RuleBreak list \<times> IntentProcessor" where
  "emotionToRuleBreaks p em =
     (let breaks0 = [];
          breaks1 = (if fgt (EmotionNode.intensity em) (lit (8 / 10))
                     then breaks0 @ [dynamics_break em] else breaks0);
          breaks2 = (if flt (valence em) (lit (- (5 / 10)))
                     then breaks1 @ [harmony_break em] else breaks1);
          breaks3 = (if fgt (arousal em) (lit (7 / 10))
                     then breaks2 @ [rhythm_break em] else breaks2)
      in (breaks3, p\<lparr> m_ruleBreaks := m_ruleBreaks p @ breaks3 \<rparr>))"

text \<open>
  \<^verbatim>\<open>compileMusicalParams\<close>: \<^verbatim>\<open>params[key] = value\<close> is \<open>fmupd\<close>; the inner range-for
  visits a \<^verbatim>\<open>std::map\<close> in ascending key order, which is \<open>sorted_list_of_fmap\<close>.
\<close>

definition overlay :: "any_map \<Rightarrow> any_map \<Rightarrow> any_map" where
  "overlay params impact = fold (\<lambda>(key, val). fmupd key val) (sorted_list_of_fmap impact) params"

definition compileMusicalParams :: "EmotionNode \<Rightarrow> RuleBreak list \<Rightarrow> any_map" where
  "compileMusicalParams em rbs =
     (let params0 = fmempty;
          params1 = fmupd ''tempo_modifier'' (AFloat (tempoModifier (musicalAttributes em))) params0;
          params2 = fmupd ''mode'' (AString (mode (musicalAttributes em))) params1;
          params3 = fmupd ''dynamics'' (AFloat (dynamics (musicalAttributes em))) params2
      in fold (\<lambda>rb params. overlay params (musicalImpact rb)) rbs params3)"

definition processIntent :: "IntentProcessor \<Rightarrow> Wound \<Rightarrow> IntentResult \<times> IntentProcessor" where
  "processIntent p w =
     (case processWound p w of (em, p1) \<Rightarrow>
        (case (case em of Some (_, node) \<Rightarrow> emotionToRuleBreaks p1 node
                        | None \<Rightarrow> ([], p1)) of (breaks, p2) \<Rightarrow>
           (\<lparr> wound = w,
              emotion = em,
              ruleBreaks = breaks,
              musicalParams = (case em of Some (_, node) \<Rightarrow> compileMusicalParams node breaks
                                        | None \<Rightarrow> fmempty) \<rparr>,
            p2)))"

section \<open>The specification's side\<close>

text \<open>An engine as the constructor leaves it: the generated catalog, iterated in some order.\<close>

definition catalog_engine :: "EmotionEngine \<Rightarrow> bool" where
  "catalog_engine e \<longleftrightarrow> m_nodes e = initializeEmotions Map.empty \<and> iteration_ok e"

text \<open>
  Lower-casing as the specification means it, given by the table of the 26 letters:
  an upper-case Latin letter becomes the lower-case letter at the same place of the
  alphabet, every other character stays as it is.
\<close>

definition spec_lower :: "char \<Rightarrow> char" where
  "spec_lower c =
     (case map_of (zip ''ABCDEFGHIJKLMNOPQRSTUVWXYZ'' ''abcdefghijklmnopqrstuvwxyz'') c of
        Some l \<Rightarrow> l
      | None \<Rightarrow> c)"

text \<open>
  The classification as the specification words it: containment of the trigger words in
  the lower-cased description, first match in the fixed priority order.
\<close>

definition classify_spec :: "string \<Rightarrow> string" where
  "classify_spec d =
     (let l = map spec_lower d
      in if sublist ''loss'' l \<or> sublist ''grief'' l then ''grief''
         else if sublist ''anger'' l \<or> sublist ''rage'' l then ''rage''
         else if sublist ''fear'' l \<or> sublist ''anxiety'' l then ''anxiety''
         else ''melancholy'')"

text \<open>
  The argument that calculateDistance passes to \<^verbatim>\<open>std::sqrt\<close>: the sum of the three
  squared coordinate differences, every operation rounded to single precision.
\<close>

definition squared_distance :: "EmotionNode \<Rightarrow> EmotionNode \<Rightarrow> float" where
  "squared_distance a b =
     (let dv = fsub (valence a) (valence b);
          da = fsub (arousal a) (arousal b);
          di = fsub (EmotionNode.intensity a) (EmotionNode.intensity b)
      in fadd (fadd (fmul dv dv) (fmul da da)) (fmul di di))"

text \<open>Two nodes are the same point when their three coordinates compare equal.\<close>

definition same_point :: "EmotionNode \<Rightarrow> EmotionNode \<Rightarrow> bool" where
  "same_point a b \<longleftrightarrow> feq (valence a) (valence b) \<and> feq (arousal a) (arousal b)
     \<and> feq (EmotionNode.intensity a) (EmotionNode.intensity b)"

text \<open>
  Sequences of calls of the public member functions of one pipeline instance:
  \<open>after_call\<close> is the state one call leaves behind, \<open>after_calls\<close> that of a
  sequence of calls.
\<close>

datatype call = CallProcessWound Wound | CallEmotionToRuleBreaks EmotionNode | CallProcessIntent Wound

fun after_call :: "call \<Rightarrow> IntentProcessor \<Rightarrow> IntentProcessor" where
  "after_call (CallProcessWound w) p = snd (processWound p w)"
| "after_call (CallEmotionToRuleBreaks em) p = snd (emotionToRuleBreaks p em)"
| "after_call (CallProcessIntent w) p = snd (processIntent p w)"

definition after_calls :: "call list \<Rightarrow> IntentProcessor \<Rightarrow> IntentProcessor" where
  "after_calls cs p = fold after_call cs p"

section \<open>Auxiliary definitions\<close>

subsection \<open>Magnitudes and grids of single-precision values\<close>

text \<open>
  \<open>unit_mag\<close>: finite, of magnitude 0 or between 1/16 and 1, as every literal of the
  table and every tier is.  \<open>coord_ok\<close>: finite and a multiple of \<open>2^-31\<close>, as every
  coordinate of a catalog node is.  \<open>mag_ge b\<close>: not NaN and of magnitude at least
  \<open>b\<close>.  \<open>nonneg\<close>: not NaN and not negative.
\<close>

fun unit_mag :: "float \<Rightarrow> bool" where
  "unit_mag (Fin s q) = ((q = 0 \<or> pow2 (- 4) \<le> q) \<and> q \<le> 1)"
| "unit_mag _ = False"

fun coord_ok :: "float \<Rightarrow> bool" where
  "coord_ok (Fin s q) = (0 \<le> q \<and> of_int \<lfloor>q * pow2 31\<rfloor> = q * pow2 31)"
| "coord_ok _ = False"

fun mag_ge :: "rat \<Rightarrow> float \<Rightarrow> bool" where
  "mag_ge b (Fin s q) = (b \<le> q)"
| "mag_ge b (Infty s) = True"
| "mag_ge b NaN = False"

fun nonneg :: "float \<Rightarrow> bool" where
  "nonneg (Fin s q) = (\<not> s \<and> 0 \<le> q)"
| "nonneg (Infty s) = (\<not> s)"
| "nonneg NaN = False"

definition point_ok :: "EmotionNode \<Rightarrow> bool" where
  "point_ok n \<longleftrightarrow> coord_ok (valence n) \<and> coord_ok (arousal n) \<and> coord_ok (EmotionNode.intensity n)"

subsection \<open>The iterations of the catalog builder, flattened\<close>

text \<open>
  \<open>catalog_jobs\<close> lists the (category, variant, tier) triples in the order in which the
  three nested loops reach them; \<open>tier_suffix\<close> is the suffix the loop body chooses;
  \<open>variant_names\<close> lists the 72 names of the table.
\<close>

definition catalog_jobs :: "(EmotionCategory \<times> (string \<times> float \<times> float) \<times> float) list" where
  "catalog_jobs =
     concat (map (\<lambda>(cat, variants).
                    concat (map (\<lambda>v. map (\<lambda>tier. (cat, v, tier)) intensityLevels) variants))
                 categoryVariants)"

definition tier_suffix :: "float \<Rightarrow> string" where
  "tier_suffix tier = (if feq tier (lit 1) then ''''
                       else if feq tier (lit (6 / 10)) then ''_mid'' else ''_low'')"

definition variant_names :: "string list" where
  "variant_names = concat (map (\<lambda>(cat, variants). map fst variants) categoryVariants)"

text \<open>The three entries \<^verbatim>\<open>compileMusicalParams\<close> starts from.\<close>

definition seed_params :: "EmotionNode \<Rightarrow> any_map" where
  "seed_params em =
     fmupd ''dynamics'' (AFloat (dynamics (musicalAttributes em)))
       (fmupd ''mode'' (AString (mode (musicalAttributes em)))
         (fmupd ''tempo_modifier'' (AFloat (tempoModifier (musicalAttributes em))) fmempty))"

subsection \<open>Concrete inputs\<close>

text \<open>
  A pipeline over an empty container (the degraded case), a constructed pipeline whose
  container iterates in ascending order of the ids, four catalog nodes, a container of
  three of them iterated in the order 78, 27, 39, a RuleBreak and a Wound.
\<close>

definition empty_processor :: IntentProcessor where
  "empty_processor =
     \<lparr> m_engine = \<lparr> m_nodes = Map.empty, m_order = [] \<rparr>, m_woundHistory = [], m_ruleBreaks = [] \<rparr>"

definition ascending_order :: "int list" where
  "ascending_order = [0..215]"

definition sample_processor :: IntentProcessor where
  "sample_processor = new_IntentProcessor ascending_order"

definition sample_node :: EmotionNode where
  "sample_node = make_node 81 Fear (''terror'', lit (- (9 / 10)), lit 1) (lit 1)"

definition gloom :: EmotionNode where
  "gloom = make_node 39 Sadness (''gloom'', lit (- (5 / 10)), lit (4 / 10)) (lit 1)"

definition bitterness :: EmotionNode where
  "bitterness = make_node 78 Anger (''bitterness'', lit (- (5 / 10)), lit (4 / 10)) (lit 1)"

definition grief :: EmotionNode where
  "grief = make_node 27 Sadness (''grief'', lit (- (9 / 10)), lit (7 / 10)) (lit 1)"

definition small_engine :: EmotionEngine where
  "small_engine =
     \<lparr> m_nodes = [27 \<mapsto> grief, 39 \<mapsto> gloom, 78 \<mapsto> bitterness], m_order = [78, 27, 39] \<rparr>"

definition sample_break :: RuleBreak where
  "sample_break =
     \<lparr> ruleType = ''dynamics'', severity = lit (5 / 10), description = ''Softer'',
       musicalImpact = fmupd ''velocity_max'' (AInt 64) fmempty \<rparr>"

definition sample_wound :: Wound where
  "sample_wound =
     \<lparr> Wound.description = ''pure rage inside'', intensity = lit (5 / 10), source = ''journal'' \<rparr>"

text \<open>
  A Wound whose description is written in capitals, and a node with chosen coordinates
  (valence, arousal, intensity) for distances that are known in closed form.
\<close>

definition capital_wound :: Wound where
  "capital_wound =
     \<lparr> Wound.description = ''PURE RAGE INSIDE'', intensity = lit (9 / 10), source = ''journal'' \<rparr>"

definition probe :: "float \<Rightarrow> float \<Rightarrow> float \<Rightarrow> EmotionNode" where
  "probe v a i =
     \<lparr> node_id = 0, name = ''probe'', category = Joy, intensity = i, valence = v, arousal = a,
       related = [],
       musicalAttributes = \<lparr> tempoModifier = lit 1, mode = ''major'', dynamics = i \<rparr> \<rparr>"

section \<open>Properties of the arithmetic\<close>

lemma pow2_conv: "pow2 e = 2 powi e"
  by (simp add: pow2_def power_int_def field_simps)

lemma pow2_pos [simp]: "0 < pow2 e"
  by (simp add: pow2_def)

lemma pow2_add: "pow2 (a + b) = pow2 a * pow2 b"
  by (simp add: pow2_conv power_int_add)

lemma pow2_mono: "a \<le> b \<Longrightarrow> pow2 a \<le> pow2 b"
  by (simp add: pow2_conv power_int_increasing)

lemma pow2_strict_mono: "a < b \<Longrightarrow> pow2 a < pow2 b"
  by (simp add: pow2_conv power_int_strict_increasing)

lemma pow2_less_D: "pow2 a < pow2 b \<Longrightarrow> a < b"
  using pow2_mono [of b a] by (cases "a < b") auto

lemma pow2_le_D: "pow2 a \<le> pow2 b \<Longrightarrow> a \<le> b"
  using pow2_strict_mono [of b a] by (cases "a \<le> b") auto

lemma pow2_of_int: "0 \<le> d \<Longrightarrow> pow2 d = of_int (2 ^ nat d)"
  by (simp add: pow2_def)

lemma pow2_neq0 [simp]: "pow2 e \<noteq> 0"
  by (simp add: pow2_def)

lemma pow2_diff: "pow2 (a - b) = pow2 a / pow2 b"
  using pow2_add [of "a - b" b] by (simp add: field_simps)

lemma pow2_minus: "pow2 (- a) = 1 / pow2 a"
  using pow2_diff [of 0 a] by (simp add: pow2_def [of 0])

lemma nat_pred: "0 < k \<Longrightarrow> nat k = Suc (nat (k - 1))"
  by simp

lemma nbits_bounds:
  "0 < n \<Longrightarrow> 0 < nbits n \<and> 2 ^ nat (nbits n - 1) \<le> n \<and> n < 2 ^ nat (nbits n)"
proof (induction n rule: nbits.induct)
  case (1 n)
  show ?case
  proof (cases "n = 1")
    case True
    then show ?thesis by (simp add: nbits.simps)
  next
    case False
    with "1.prems" have h: "0 < n div 2" by simp
    define k where "k = nbits (n div 2)"
    from "1.IH" h "1.prems" have ih: "0 < k" "2 ^ nat (k - 1) \<le> n div 2" "n div 2 < 2 ^ nat k"
      by (auto simp: k_def)
    have nk: "nbits n = 1 + k" using "1.prems" by (simp add: nbits.simps [of n] k_def)
    have e: "(2::int) ^ nat k = 2 * 2 ^ nat (k - 1)"
      using nat_pred [OF ih(1)] by simp
    have e2: "(2::int) ^ nat (1 + k) = 2 * 2 ^ nat k"
      using ih(1) nat_pred [of "1 + k"] by simp
    have lo: "2 ^ nat k \<le> n" using ih(2) e by linarith
    have hi: "n < 2 * 2 ^ nat k" using ih(3) by linarith
    show ?thesis using ih(1) lo hi by (simp add: nk e2)
  qed
qed

lemma ilog2_bounds:
  assumes "0 < q"
  shows "pow2 (ilog2 q) \<le> q \<and> q < pow2 (ilog2 q + 1)"
proof (cases "1 \<le> q")
  case True
  define n where "n = \<lfloor>q\<rfloor>"
  have n1: "0 < n" using True by (simp add: n_def)
  from nbits_bounds [OF n1] have b: "0 < nbits n" "2 ^ nat (nbits n - 1) \<le> n" "n < 2 ^ nat (nbits n)"
    by auto
  have e: "ilog2 q = nbits n - 1" using True by (simp add: ilog2_def n_def)
  have "pow2 (nbits n - 1) = of_int (2 ^ nat (nbits n - 1))"
    using b(1) by (intro pow2_of_int) simp
  also have "\<dots> \<le> of_int n" using b(2) by (simp only: of_int_le_iff)
  also have "\<dots> \<le> q" by (simp add: n_def)
  finally have lo: "pow2 (ilog2 q) \<le> q" by (simp add: e)
  have "n + 1 \<le> 2 ^ nat (nbits n)" using b(3) by simp
  then have "(of_int (n + 1) :: rat) \<le> of_int (2 ^ nat (nbits n))" by (simp only: of_int_le_iff)
  moreover have "q < of_int (n + 1)" unfolding n_def by linarith
  moreover have "of_int (2 ^ nat (nbits n)) = pow2 (nbits n)" using b(1) by (subst pow2_of_int) simp_all
  ultimately have "q < pow2 (nbits n)" by linarith
  then have hi: "q < pow2 (ilog2 q + 1)" by (simp add: e)
  show ?thesis using lo hi by simp
next
  case False
  define c where "c = \<lceil>1 / q\<rceil>"
  define n where "n = c - 1"
  have q1: "1 < 1 / q" using False assms by simp
  have c2: "1 < c" using q1 by (simp add: c_def less_ceiling_iff)
  then have n1: "0 < n" by (simp add: n_def)
  define k where "k = nbits n"
  from nbits_bounds [OF n1] have b: "0 < k" "2 ^ nat (k - 1) \<le> n" "n < 2 ^ nat k"
    by (auto simp: k_def)
  have e: "ilog2 q = - k" using False by (simp add: ilog2_def n_def c_def k_def)
  have ck: "c \<le> 2 ^ nat k" using b(3) by (simp add: n_def)
  have "1 / q \<le> of_int c" by (simp add: c_def)
  also have "\<dots> \<le> of_int (2 ^ nat k)" using ck by (simp only: of_int_le_iff)
  also have "\<dots> = pow2 k" using b(1) by (subst pow2_of_int) simp_all
  finally have "1 / q \<le> pow2 k" .
  then have "1 \<le> pow2 k * q" using assms by (simp add: field_simps)
  then have lo: "pow2 (- k) \<le> q"
    by (simp add: pow2_minus field_simps)
  have "pow2 (k - 1) = of_int (2 ^ nat (k - 1))" using b(1) by (intro pow2_of_int) simp
  also have "\<dots> \<le> of_int n" using b(2) by (simp only: of_int_le_iff)
  also have "\<dots> < 1 / q" using ceiling_correct [of "1 / q"] by (simp add: n_def c_def)
  finally have "pow2 (k - 1) < 1 / q" .
  then have "q < 1 / pow2 (k - 1)"
    using assms pow2_pos [of "k - 1"] by (simp add: field_simps)
  moreover have "pow2 (1 - k) = 1 / pow2 (k - 1)"
    using pow2_minus [of "k - 1"] by simp
  ultimately have hi: "q < pow2 (1 - k)"
    by simp
  show ?thesis using lo hi by (simp add: e)
qed

lemma rnd_even_ge: "of_int n \<le> x \<Longrightarrow> n \<le> rnd_even x"
proof -
  assume "of_int n \<le> x"
  then have "n \<le> \<lfloor>x\<rfloor>" by (simp add: le_floor_iff)
  then show ?thesis by (simp add: rnd_even_def Let_def)
qed

lemma rnd_even_le: "x \<le> of_int n \<Longrightarrow> rnd_even x \<le> n"
proof (cases "x = of_int n")
  case True
  then show ?thesis by (simp add: rnd_even_def Let_def)
next
  case False
  assume "x \<le> of_int n"
  with False have "x < of_int n" by simp
  then have "\<lfloor>x\<rfloor> < n" by (simp add: floor_less_iff)
  then show ?thesis by (simp add: rnd_even_def Let_def)
qed

lemma round_mag_0 [simp]: "round_mag 0 = 0"
  by (simp add: round_mag_def)

lemma pow2_nonneg [simp]: "0 \<le> pow2 e"
  using pow2_pos [of e] by (simp only: less_imp_le)

lemma round_mag_nonneg: "0 \<le> q \<Longrightarrow> 0 \<le> round_mag q"
proof -
  assume q: "0 \<le> q"
  then have "0 \<le> rnd_even (q / pow2 (ulp_exp q))"
    by (intro rnd_even_ge) simp
  then have "(0::rat) \<le> of_int (rnd_even (q / pow2 (ulp_exp q))) * pow2 (ulp_exp q)"
    by (intro mult_nonneg_nonneg) simp_all
  then show ?thesis by (simp add: round_mag_def)
qed

lemma ilog2_ge: "pow2 k \<le> q \<Longrightarrow> k \<le> ilog2 q"
proof -
  assume a: "pow2 k \<le> q"
  then have "0 < q" using pow2_pos [of k] by linarith
  from ilog2_bounds [OF this] a have "pow2 k < pow2 (ilog2 q + 1)" by linarith
  then show ?thesis using pow2_less_D by fastforce
qed

lemma ilog2_le: "0 < q \<Longrightarrow> q \<le> pow2 k \<Longrightarrow> ilog2 q \<le> k"
proof -
  assume a: "0 < q" "q \<le> pow2 k"
  from ilog2_bounds [OF a(1)] a(2) have "pow2 (ilog2 q) \<le> pow2 k" by linarith
  then show ?thesis by (rule pow2_le_D)
qed

lemma round_mag_ge:
  assumes "- 126 \<le> k" "pow2 k \<le> q"
  shows "pow2 k \<le> round_mag q"
proof -
  define e where "e = ilog2 q"
  have q0: "0 < q" using assms(2) pow2_pos [of k] by linarith
  have ke: "k \<le> e" using ilog2_ge [OF assms(2)] by (simp add: e_def)
  have ue: "ulp_exp q = e - 23" using ke assms(1) by (simp add: ulp_exp_def e_def)
  have "pow2 e \<le> q" using ilog2_bounds [OF q0] by (simp add: e_def)
  then have "pow2 e / pow2 (e - 23) \<le> q / pow2 (e - 23)"
    by (intro divide_right_mono) simp_all
  moreover have "pow2 e / pow2 (e - 23) = of_int (2 ^ 23)"
    using pow2_diff [of e "e - 23"] by (simp add: pow2_def)
  ultimately have "2 ^ 23 \<le> rnd_even (q / pow2 (e - 23))"
    by (intro rnd_even_ge) simp
  then have "(of_int (2 ^ 23) :: rat) \<le> of_int (rnd_even (q / pow2 (e - 23)))"
    by (simp only: of_int_le_iff)
  then have "of_int (2 ^ 23) * pow2 (e - 23) \<le> round_mag q"
    using q0 by (simp add: round_mag_def ue)
  moreover have "of_int (2 ^ 23) * pow2 (e - 23) = pow2 e"
    using pow2_add [of 23 "e - 23"] by (simp add: pow2_def [of 23])
  ultimately show ?thesis using pow2_mono [OF ke] by linarith
qed

lemma round_mag_le:
  assumes "- 149 \<le> k" "0 < q" "q \<le> pow2 k"
  shows "round_mag q \<le> pow2 k"
proof -
  define u where "u = ulp_exp q"
  have "ilog2 q \<le> k" using ilog2_le [OF assms(2,3)] .
  then have uk: "u \<le> k" using assms(1) by (simp add: u_def ulp_exp_def)
  have "q / pow2 u \<le> pow2 k / pow2 u" using assms(3) by (intro divide_right_mono) simp_all
  also have "\<dots> = pow2 (k - u)" by (simp add: pow2_diff)
  also have "\<dots> = of_int (2 ^ nat (k - u))" using uk by (intro pow2_of_int) simp
  finally have "rnd_even (q / pow2 u) \<le> 2 ^ nat (k - u)" by (rule rnd_even_le)
  then have "(of_int (rnd_even (q / pow2 u)) :: rat) \<le> of_int (2 ^ nat (k - u))"
    by (simp only: of_int_le_iff)
  also have "\<dots> = pow2 (k - u)" using uk by (subst pow2_of_int) simp_all
  finally have "of_int (rnd_even (q / pow2 u)) * pow2 u \<le> pow2 (k - u) * pow2 u"
    by (simp add: mult_right_mono)
  then show ?thesis using assms(2) by (simp add: round_mag_def u_def pow2_diff)
qed

lemma round_mag_grid:
  assumes "- 126 \<le> k" "pow2 k \<le> q"
  shows "\<exists>n::int. round_mag q = of_int n * pow2 (k - 23)"
proof -
  have q0: "0 < q" using assms(2) pow2_pos [of k] by linarith
  have ke: "k \<le> ilog2 q" using ilog2_ge [OF assms(2)] .
  define d where "d = ulp_exp q - (k - 23)"
  have d0: "0 \<le> d" using ke assms(1) by (simp add: d_def ulp_exp_def)
  have "pow2 (ulp_exp q) = pow2 d * pow2 (k - 23)"
    using pow2_add [of d "k - 23"] by (simp add: d_def)
  also have "pow2 d = of_int (2 ^ nat d)" using d0 by (rule pow2_of_int)
  finally have "round_mag q = of_int (rnd_even (q / pow2 (ulp_exp q)) * 2 ^ nat d) * pow2 (k - 23)"
    using q0 by (simp add: round_mag_def)
  then show ?thesis by blast
qed

lemma pow2_zero: "pow2 0 = 1"
  by (simp add: pow2_def)

lemma round32_unit: "0 \<le> q \<Longrightarrow> q \<le> 1 \<Longrightarrow> round32 s q = Fin s (round_mag q)"
proof (cases "q = 0")
  case True
  then show ?thesis by (simp add: round32_def pow2_def)
next
  case False
  assume "0 \<le> q" "q \<le> 1"
  with False have "round_mag q \<le> pow2 0"
    by (intro round_mag_le) (simp_all add: pow2_def)
  moreover have "pow2 0 < pow2 128" by (rule pow2_strict_mono) simp
  ultimately show ?thesis by (simp add: round32_def)
qed

lemma mag_ge_round32: "- 126 \<le> k \<Longrightarrow> pow2 k \<le> q \<Longrightarrow> mag_ge (pow2 k) (round32 s q)"
  using round_mag_ge [of k q] by (simp add: round32_def Let_def)

lemma nonneg_round32: "0 \<le> q \<Longrightarrow> nonneg (round32 False q)"
  using round_mag_nonneg [of q] by (simp add: round32_def Let_def)

lemma grid_coarser:
  assumes "x = of_int n * pow2 j" "j \<ge> - 31"
  shows "of_int \<lfloor>x * pow2 31\<rfloor> = x * pow2 31"
proof -
  have "x * pow2 31 = of_int n * pow2 (j + 31)"
    by (simp add: assms(1) pow2_add)
  also have "pow2 (j + 31) = of_int (2 ^ nat (j + 31))"
    using assms(2) by (intro pow2_of_int) simp
  finally have "x * pow2 31 = of_int (n * 2 ^ nat (j + 31))" by simp
  then show ?thesis by (simp only: floor_of_int)
qed

lemma round32_coord:
  assumes "- 8 \<le> k" "pow2 k \<le> q" "q \<le> 1"
  shows "\<exists>r. round32 s q = Fin s r \<and> pow2 k \<le> r \<and> r \<le> 1 \<and> coord_ok (Fin s r)"
proof -
  have q0: "0 < q" using assms(2) pow2_pos [of k] by linarith
  have f: "round32 s q = Fin s (round_mag q)" using q0 assms(3) by (intro round32_unit) simp_all
  have lo: "pow2 k \<le> round_mag q" using assms by (intro round_mag_ge) simp_all
  have hi: "round_mag q \<le> 1" using round_mag_le [of 0 q] q0 assms(3) by (simp add: pow2_def)
  obtain n :: int where n: "round_mag q = of_int n * pow2 (k - 23)"
    using round_mag_grid [of k q] assms by auto
  have "of_int \<lfloor>round_mag q * pow2 31\<rfloor> = round_mag q * pow2 31"
    using n assms(1) by (intro grid_coarser [of _ n "k - 23"]) simp_all
  moreover have "0 \<le> round_mag q" using lo pow2_pos [of k] by linarith
  ultimately show ?thesis using f lo hi by simp
qed

lemma coord_ok_zero: "coord_ok (Fin s 0)"
  by simp

lemma lit_ok:
  assumes "(r = 0 \<or> 1 / 16 \<le> \<bar>r\<bar>) \<and> \<bar>r\<bar> \<le> 1"
  shows "unit_mag (lit r) \<and> coord_ok (lit r)"
proof (cases "r = 0")
  case True
  then show ?thesis by (simp add: lit_def round32_def pow2_def)
next
  case False
  with assms have "pow2 (- 4) \<le> \<bar>r\<bar>" "\<bar>r\<bar> \<le> 1" by (simp_all add: pow2_def)
  from round32_coord [of "- 4" "\<bar>r\<bar>" "r < 0"] this
  show ?thesis by (auto simp: lit_def)
qed

lemma fmul_coord:
  assumes "unit_mag x" "unit_mag y"
  shows "coord_ok (fmul x y)"
proof -
  obtain s p where x: "x = Fin s p" using assms(1) by (cases x) auto
  obtain t q where y: "y = Fin t q" using assms(2) by (cases y) auto
  show ?thesis
  proof (cases "p = 0 \<or> q = 0")
    case True
    then show ?thesis by (auto simp: x y round32_def pow2_def)
  next
    case False
    with assms have b: "pow2 (- 4) \<le> p" "p \<le> 1" "pow2 (- 4) \<le> q" "q \<le> 1"
      by (auto simp: x y)
    have p0: "0 \<le> p" "0 \<le> q" using b pow2_pos [of "- 4"] by linarith+
    have "pow2 (- 4) * pow2 (- 4) \<le> p * q"
      using b p0 by (intro mult_mono) simp_all
    then have lo: "pow2 (- 8) \<le> p * q" using pow2_add [of "- 4" "- 4"] by simp
    have "p * q \<le> 1 * 1" using b p0 by (intro mult_mono) simp_all
    then have hi: "p * q \<le> 1" by simp
    from round32_coord [of "- 8" "p * q" "s \<noteq> t"] lo hi
    show ?thesis by (auto simp: x y)
  qed
qed

lemma pow2_le_pos: "pow2 k \<le> x \<Longrightarrow> 0 < x"
  by (rule less_le_trans [OF pow2_pos])

lemma fneg_round32: "fneg (round32 s q) = round32 (\<not> s) q"
  by (simp add: round32_def Let_def)

lemma coord_grid:
  assumes "coord_ok (Fin s p)"
  shows "sval s p = of_int (if s then - \<lfloor>p * pow2 31\<rfloor> else \<lfloor>p * pow2 31\<rfloor>) * pow2 (- 31)"
proof -
  have "p = p * pow2 31 * pow2 (- 31)" using pow2_add [of 31 "- 31"] by (simp add: pow2_def [of 0])
  also have "p * pow2 31 = of_int \<lfloor>p * pow2 31\<rfloor>"
    using assms by (simp only: coord_ok.simps)
  finally have "p = of_int \<lfloor>p * pow2 31\<rfloor> * pow2 (- 31)" .
  then show ?thesis by (simp add: sval_def)
qed

lemma fsub_far:
  assumes "coord_ok x" "coord_ok y" "\<not> feq x y"
  shows "mag_ge (pow2 (- 31)) (fsub x y)"
proof -
  obtain s p where x: "x = Fin s p" using assms(1) by (cases x) auto
  obtain t q where y: "y = Fin t q" using assms(2) by (cases y) auto
  define a where "a = (if s then - \<lfloor>p * pow2 31\<rfloor> else \<lfloor>p * pow2 31\<rfloor>)"
  define b where "b = (if t then - \<lfloor>q * pow2 31\<rfloor> else \<lfloor>q * pow2 31\<rfloor>)"
  have xa: "sval s p = of_int a * pow2 (- 31)" using coord_grid assms(1) by (simp add: x a_def)
  have yb: "sval t q = of_int b * pow2 (- 31)" using coord_grid assms(2) by (simp add: y b_def)
  have ne: "a \<noteq> b" using assms(3) by (auto simp: x y xa yb)
  define d where "d = sval s p + sval (\<not> t) q"
  have d: "d = of_int (a - b) * pow2 (- 31)"
    using xa yb by (simp add: d_def sval_def algebra_simps split: if_splits)
  have "1 \<le> \<bar>a - b\<bar>" using ne by simp
  then have "(1::rat) \<le> of_int \<bar>a - b\<bar>" by (simp only: of_int_1_le_iff)
  then have "1 * pow2 (- 31) \<le> \<bar>of_int (a - b)\<bar> * pow2 (- 31)"
    by (intro mult_right_mono) simp_all
  then have lo: "pow2 (- 31) \<le> \<bar>d\<bar>" by (simp add: d abs_mult)
  then have "d \<noteq> 0" using pow2_le_pos [of "- 31" "\<bar>d\<bar>"] by auto
  then have "fsub x y = round32 (d < 0) \<bar>d\<bar>"
    by (simp add: fsub_def x y d_def Let_def)
  then show ?thesis using mag_ge_round32 [of "- 31" "\<bar>d\<bar>"] lo by simp
qed

lemma fsub_same:
  assumes "coord_ok x" "coord_ok y" "feq x y"
  shows "\<exists>b. fsub x y = Fin b 0"
proof -
  obtain s p where x: "x = Fin s p" using assms(1) by (cases x) auto
  obtain t q where y: "y = Fin t q" using assms(2) by (cases y) auto
  have "sval s p + sval (\<not> t) q = 0" using assms(3) by (auto simp: x y sval_def split: if_splits)
  then show ?thesis by (simp add: fsub_def x y)
qed

lemma fsub_sane:
  assumes "coord_ok x" "coord_ok y"
  shows "mag_ge 0 (fsub x y)"
proof (cases "feq x y")
  case True
  from fsub_same [OF assms True] show ?thesis by auto
next
  case False
  from fsub_far [OF assms False] have "mag_ge (pow2 (- 31)) (fsub x y)" .
  then show ?thesis using pow2_le_pos [of "- 31"] by (cases "fsub x y") (auto simp: less_imp_le)
qed

lemma fmul_self_nonneg: "mag_ge 0 d \<Longrightarrow> nonneg (fmul d d)"
  by (cases d) (auto simp: nonneg_round32)

lemma fmul_self_far:
  assumes "mag_ge (pow2 (- 31)) d"
  shows "mag_ge (pow2 (- 62)) (fmul d d)"
proof (cases d)
  case (Fin s q)
  with assms have q: "pow2 (- 31) \<le> q" by simp
  have "pow2 (- 31) * pow2 (- 31) \<le> q * q"
    using q pow2_le_pos [OF q] by (intro mult_mono) simp_all
  then have "pow2 (- 62) \<le> q * q" using pow2_add [of "- 31" "- 31"] by simp
  then show ?thesis using mag_ge_round32 [of "- 62" "q * q"] by (simp add: Fin)
qed (use assms in auto)

lemma round32_zero [simp]: "round32 s 0 = Fin s 0"
  by (simp add: round32_def not_le)

lemma fmul_self_zero: "fmul (Fin b 0) (Fin b 0) = Fin False 0"
  by simp

lemma fadd_nonneg: "nonneg x \<Longrightarrow> nonneg y \<Longrightarrow> nonneg (fadd x y)"
proof (cases x; cases y)
  fix s p t q
  assume "nonneg x" "nonneg y" "x = Fin s p" "y = Fin t q"
  then have h: "\<not> s" "\<not> t" "0 \<le> p" "0 \<le> q" by auto
  then have "fadd (Fin s p) (Fin t q) = (if p + q = 0 then Fin False 0 else round32 False (p + q))"
    by (simp add: sval_def Let_def)
  then show "nonneg (fadd x y)"
    using h nonneg_round32 [of "p + q"] by (simp add: \<open>x = Fin s p\<close> \<open>y = Fin t q\<close>)
qed auto

lemma fadd_far:
  assumes "nonneg x" "nonneg y" "mag_ge (pow2 k) x \<or> mag_ge (pow2 k) y" "- 126 \<le> k"
  shows "mag_ge (pow2 k) (fadd x y)"
proof (cases x; cases y)
  fix s p t q
  assume xy: "x = Fin s p" "y = Fin t q"
  with assms have h: "\<not> s" "\<not> t" "0 \<le> p" "0 \<le> q" "pow2 k \<le> p \<or> pow2 k \<le> q" by auto
  then have lo: "pow2 k \<le> p + q" by auto
  then have "0 < p + q" by (rule pow2_le_pos)
  then have "fadd x y = round32 False (p + q)"
    using h by (simp add: xy sval_def Let_def)
  then show "mag_ge (pow2 k) (fadd x y)"
    using mag_ge_round32 [OF assms(4) lo] by simp
qed (use assms in auto)

subsection \<open>Square roots\<close>

lemma isqrt_nonneg: "0 \<le> isqrt n"
proof (induction n rule: isqrt.induct)
  case (1 n)
  show ?case
  proof (cases "n < 4")
    case True
    then show ?thesis by (simp add: isqrt.simps [of n])
  next
    case False
    with "1.IH" have "0 \<le> isqrt (n div 4)" by simp
    then show ?thesis using False by (simp add: isqrt.simps [of n] Let_def)
  qed
qed

lemma isqrt_pos: "1 \<le> n \<Longrightarrow> 1 \<le> isqrt n"
proof (induction n rule: isqrt.induct)
  case (1 n)
  show ?case
  proof (cases "n < 4")
    case True
    with "1.prems" show ?thesis by (simp add: isqrt.simps [of n])
  next
    case False
    with "1.IH" have "1 \<le> isqrt (n div 4)" by simp
    then show ?thesis using False by (simp add: isqrt.simps [of n] Let_def)
  qed
qed

lemma sqrt_rnd_ge: "isqrt \<lfloor>y\<rfloor> \<le> sqrt_rnd y"
  by (simp add: sqrt_rnd_def Let_def)

lemma sqrt32_nonneg: "nonneg (sqrt32 q)"
proof -
  have "0 \<le> sqrt_rnd y" for y
    using isqrt_nonneg [of "\<lfloor>y\<rfloor>"] sqrt_rnd_ge [of y] by linarith
  then have "(0::rat) \<le> of_int (sqrt_rnd y) * pow2 e" for y e
    by (intro mult_nonneg_nonneg) simp_all
  then show ?thesis by (simp add: sqrt32_def Let_def)
qed

lemma fsqrt_nonneg: "nonneg x \<Longrightarrow> nonneg (fsqrt x)"
  by (cases x) (auto simp: sqrt32_nonneg)

lemma sqrt32_pos:
  assumes "pow2 (- 62) \<le> q"
  shows "\<not> feq (sqrt32 q) (Fin False 0)"
proof -
  define e where "e = ilog2 q"
  define u where "u = pow2 (max (e div 2) (- 126) - 23)"
  define y where "y = q / (u * u)"
  have q0: "0 < q" using assms by (rule pow2_le_pos)
  have e62: "- 62 \<le> e" using ilog2_ge [OF assms] by (simp add: e_def)
  then have m: "max (e div 2) (- 126) = e div 2" by simp
  have "u * u = pow2 ((e div 2 - 23) + (e div 2 - 23))"
    unfolding u_def m by (rule pow2_add [symmetric])
  also have "\<dots> \<le> pow2 e" by (rule pow2_mono) simp
  also have "\<dots> \<le> q" using ilog2_bounds [OF q0] by (simp add: e_def)
  finally have uq: "u * u \<le> q" .
  have u0: "0 < u * u" by (simp add: u_def)
  have "1 \<le> y" using uq u0 by (simp add: y_def)
  then have "1 \<le> \<lfloor>y\<rfloor>" by simp
  then have "1 \<le> sqrt_rnd y" using isqrt_pos [of "\<lfloor>y\<rfloor>"] sqrt_rnd_ge [of y] by linarith
  then have "(0::rat) < of_int (sqrt_rnd y)" by simp
  then have "of_int (sqrt_rnd y) * u \<noteq> 0" by (simp add: u_def)
  then show ?thesis
    by (simp add: sqrt32_def Let_def e_def [symmetric] u_def [symmetric] y_def [symmetric] sval_def)
qed

lemma fsqrt_far: "nonneg x \<Longrightarrow> mag_ge (pow2 (- 62)) x \<Longrightarrow> \<not> feq (fsqrt x) (Fin False 0)"
proof (cases x)
  case (Fin s q)
  assume "nonneg x" "mag_ge (pow2 (- 62)) x"
  with Fin have h: "\<not> s" "pow2 (- 62) \<le> q" by auto
  then have "q \<noteq> 0" using pow2_le_pos [of "- 62" q] by auto
  then show ?thesis using h sqrt32_pos [of q] by (simp add: Fin)
qed auto

subsection \<open>The distance between well-formed points\<close>

lemma round32_sq_sign: "fmul (round32 s m) (round32 s m) = fmul (round32 t m) (round32 t m)"
  by (simp add: round32_def Let_def)

lemma sq_fsub_sym: "fmul (fsub x y) (fsub x y) = fmul (fsub y x) (fsub y x)"
proof (cases x; cases y)
  fix s p t q
  assume xy: "x = Fin s p" "y = Fin t q"
  define d where "d = sval s p + sval (\<not> t) q"
  have d': "sval t q + sval (\<not> s) p = - d" by (simp add: d_def sval_def)
  show ?thesis
  proof (cases "d = 0")
    case True
    then show ?thesis using d' by (simp add: fsub_def xy d_def [symmetric] round32_def Let_def)
  next
    case False
    then show ?thesis
      using d' round32_sq_sign [of "d < 0" "\<bar>d\<bar>" "- d < 0"]
      by (simp add: fsub_def xy d_def [symmetric] Let_def)
  qed
qed (auto simp: fsub_def)

lemma calculateDistance_sym: "calculateDistance a b = calculateDistance b a"
  unfolding calculateDistance_def Let_def
  by (simp add: sq_fsub_sym [of "valence a"] sq_fsub_sym [of "arousal a"]
        sq_fsub_sym [of "EmotionNode.intensity a"])

lemma sq_nonneg: "coord_ok x \<Longrightarrow> coord_ok y \<Longrightarrow> nonneg (fmul (fsub x y) (fsub x y))"
  by (intro fmul_self_nonneg fsub_sane)

lemma sq_zero: "coord_ok x \<Longrightarrow> coord_ok y \<Longrightarrow> feq x y \<Longrightarrow> fmul (fsub x y) (fsub x y) = Fin False 0"
  using fsub_same [of x y] by (auto simp: fmul_self_zero)

lemma sq_far: "coord_ok x \<Longrightarrow> coord_ok y \<Longrightarrow> \<not> feq x y \<Longrightarrow> mag_ge (pow2 (- 62)) (fmul (fsub x y) (fsub x y))"
  by (intro fmul_self_far fsub_far)

lemma distance_nonneg:
  assumes "point_ok a" "point_ok b"
  shows "nonneg (calculateDistance a b)"
  using assms unfolding calculateDistance_def Let_def point_ok_def
  by (intro fsqrt_nonneg fadd_nonneg sq_nonneg) simp_all

lemma distance_zero_iff:
  assumes "point_ok a" "point_ok b"
  shows "feq (calculateDistance a b) (Fin False 0) \<longleftrightarrow> same_point a b"
proof
  assume "same_point a b"
  then show "feq (calculateDistance a b) (Fin False 0)"
    using assms unfolding calculateDistance_def Let_def point_ok_def same_point_def
    by (simp add: sq_zero sval_def)
next
  assume z: "feq (calculateDistance a b) (Fin False 0)"
  define V where "V = fmul (fsub (valence a) (valence b)) (fsub (valence a) (valence b))"
  define A where "A = fmul (fsub (arousal a) (arousal b)) (fsub (arousal a) (arousal b))"
  define I where "I = fmul (fsub (EmotionNode.intensity a) (EmotionNode.intensity b))
     (fsub (EmotionNode.intensity a) (EmotionNode.intensity b))"
  have nn: "nonneg V" "nonneg A" "nonneg I"
    using assms unfolding V_def A_def I_def point_ok_def by (simp_all add: sq_nonneg)
  have dist: "calculateDistance a b = fsqrt (fadd (fadd V A) I)"
    by (simp add: calculateDistance_def Let_def V_def A_def I_def)
  show "same_point a b"
  proof (rule ccontr)
    assume "\<not> same_point a b"
    then have "mag_ge (pow2 (- 62)) V \<or> mag_ge (pow2 (- 62)) A \<or> mag_ge (pow2 (- 62)) I"
      using assms unfolding V_def A_def I_def point_ok_def same_point_def
      by (auto simp: sq_far)
    then have "mag_ge (pow2 (- 62)) (fadd (fadd V A) I)"
    proof (elim disjE)
      assume "mag_ge (pow2 (- 62)) V"
      then have "mag_ge (pow2 (- 62)) (fadd V A)" using nn by (intro fadd_far) simp_all
      then show ?thesis using nn by (intro fadd_far fadd_nonneg) simp_all
    next
      assume "mag_ge (pow2 (- 62)) A"
      then have "mag_ge (pow2 (- 62)) (fadd V A)" using nn by (intro fadd_far) simp_all
      then show ?thesis using nn by (intro fadd_far fadd_nonneg) simp_all
    next
      assume "mag_ge (pow2 (- 62)) I"
      then show ?thesis using nn by (intro fadd_far fadd_nonneg) simp_all
    qed
    moreover have "nonneg (fadd (fadd V A) I)" using nn by (intro fadd_nonneg) simp_all
    ultimately have "\<not> feq (calculateDistance a b) (Fin False 0)"
      unfolding dist by (intro fsqrt_far) simp_all
    with z show False by simp
  qed
qed

lemma feq_refl_nonneg: "nonneg x \<Longrightarrow> feq x x"
  by (cases x) auto

section \<open>Properties of the catalog\<close>

lemma fold_inner:
  "fold (\<lambda>tier. store_node cat v tier) ts st =
   fold (\<lambda>(cat, v, tier). store_node cat v tier) (map (\<lambda>tier. (cat, v, tier)) ts) st"
  by (induction ts arbitrary: st) auto

lemma fold_middle:
  "fold (\<lambda>v. fold (\<lambda>tier. store_node cat v tier) ts) vs st =
   fold (\<lambda>(cat, v, tier). store_node cat v tier)
        (concat (map (\<lambda>v. map (\<lambda>tier. (cat, v, tier)) ts) vs)) st"
  by (induction vs arbitrary: st) (auto simp: fold_inner)

lemma fold_outer:
  "fold (\<lambda>(cat, variants). fold (\<lambda>v. fold (\<lambda>tier. store_node cat v tier) ts) variants) tbl st =
   fold (\<lambda>(cat, v, tier). store_node cat v tier)
        (concat (map (\<lambda>(cat, variants).
                        concat (map (\<lambda>v. map (\<lambda>tier. (cat, v, tier)) ts) variants)) tbl)) st"
  by (induction tbl arbitrary: st) (auto simp: fold_middle)

lemma fold_store:
  "fold (\<lambda>(cat, v, tier). store_node cat v tier) js (m, n) =
     ((\<lambda>i. if n \<le> i \<and> i < n + int (length js)
            then Some (case js ! nat (i - n) of (cat, v, tier) \<Rightarrow> make_node i cat v tier)
            else m i),
      n + int (length js))"
proof (induction js arbitrary: m n)
  case Nil
  then show ?case by (auto intro!: ext)
next
  case (Cons j js)
  obtain cat v tier where j: "j = (cat, v, tier)" by (cases j) auto
  have st: "store_node cat v tier (m, n) = (m(n \<mapsto> make_node n cat v tier), n + 1)"
    by (simp add: store_node_def)
  have k: "nat (i - (n + 1)) = nat (i - n) - Suc 0" for i
    by (cases "n + 1 \<le> i") (simp_all add: nat_diff_distrib)
  show ?case
    apply (simp add: j st Cons.IH)
    apply (rule ext)
    apply (auto simp: nth_Cons' k j)
    done
qed

lemma length_jobs: "length catalog_jobs = 216"
  by (simp add: catalog_jobs_def categoryVariants_def intensityLevels_def)

lemma init_lookup:
  "initializeEmotions Map.empty i =
     (if 0 \<le> i \<and> i < 216
      then Some (case catalog_jobs ! nat i of (cat, v, tier) \<Rightarrow> make_node i cat v tier)
      else None)"
  unfolding initializeEmotions_def fold_outer catalog_jobs_def [symmetric] fold_store
  by (simp add: length_jobs)

lemma nth_concat_uniform:
  "\<forall>xs\<in>set xss. length xs = k \<Longrightarrow> c < length xss \<Longrightarrow> r < k \<Longrightarrow>
   concat xss ! (k * c + r) = xss ! c ! r"
proof (induction xss arbitrary: c)
  case Nil
  then show ?case by simp
next
  case (Cons xs xss)
  show ?case
  proof (cases c)
    case 0
    with Cons.prems show ?thesis by (simp add: nth_append)
  next
    case (Suc c')
    with Cons.prems have "concat xss ! (k * c' + r) = xss ! c' ! r"
      by (intro Cons.IH) simp_all
    with Cons.prems Suc show ?thesis by (simp add: nth_append)
  qed
qed

lemma table_shape:
  "length categoryVariants = 8" "\<forall>cv\<in>set categoryVariants. length (snd cv) = 9"
  "length intensityLevels = 3"
  by (simp_all add: categoryVariants_def intensityLevels_def)

lemma jobs_nth:
  assumes "c < 8" "v < 9" "t < 3"
  shows "catalog_jobs ! (27 * c + 3 * v + t) =
         (fst (categoryVariants ! c), snd (categoryVariants ! c) ! v, intensityLevels ! t)"
proof -
  define G where "G = (\<lambda>(cat :: EmotionCategory) (v :: string \<times> float \<times> float).
    map (\<lambda>tier. (cat, v, tier)) intensityLevels)"
  define F where "F = (\<lambda>(cat :: EmotionCategory, variants). concat (map (G cat) variants))"
  have j: "catalog_jobs = concat (map F categoryVariants)"
    by (simp add: catalog_jobs_def F_def G_def)
  have lenF: "\<forall>xs\<in>set (map F categoryVariants). length xs = 27"
    using table_shape(2,3) by (auto simp: F_def G_def length_concat comp_def sum_list_triv)
  have "3 * v + t < 27" using assms by simp
  then have "catalog_jobs ! (27 * c + (3 * v + t)) = map F categoryVariants ! c ! (3 * v + t)"
    unfolding j using lenF assms(1) table_shape(1) by (intro nth_concat_uniform) simp_all
  also have "map F categoryVariants ! c = F (categoryVariants ! c)"
    using assms(1) table_shape(1) by simp
  also have "F (categoryVariants ! c) = concat (map (G (fst (categoryVariants ! c))) (snd (categoryVariants ! c)))"
    by (simp add: F_def case_prod_beta)
  also have "\<dots> ! (3 * v + t) = map (G (fst (categoryVariants ! c))) (snd (categoryVariants ! c)) ! v ! t"
    using assms table_shape(1,2,3) by (intro nth_concat_uniform) (auto simp: G_def)
  also have "\<dots> = (fst (categoryVariants ! c), snd (categoryVariants ! c) ! v, intensityLevels ! t)"
    using assms table_shape(1,2,3) by (simp add: G_def)
  finally show ?thesis by (simp add: add.assoc)
qed

lemma suffix_evals:
  "tier_suffix (intensityLevels ! 0) = ''''"
  "tier_suffix (intensityLevels ! 1) = ''_mid''"
  "tier_suffix (intensityLevels ! 2) = ''_low''"
  by code_simp+

lemma variant_names_distinct: "distinct variant_names"
  by (simp add: variant_names_def categoryVariants_def)

lemma variant_names_plain: "\<forall>n\<in>set variant_names. CHR ''_'' \<notin> set n"
  by (simp add: variant_names_def categoryVariants_def)

lemma variant_names_nth:
  assumes "c < 8" "v < 9"
  shows "variant_names ! (9 * c + v) = fst (snd (categoryVariants ! c) ! v)"
proof -
  have "variant_names ! (9 * c + v) = map (\<lambda>(cat, variants). map fst variants) categoryVariants ! c ! v"
    unfolding variant_names_def using assms table_shape(1,2)
    by (intro nth_concat_uniform) auto
  then show ?thesis using assms table_shape(1,2) by (simp add: case_prod_beta)
qed

lemma make_node_name:
  "name (make_node i cat v tier) = fst v @ tier_suffix tier"
  by (cases v) (simp add: make_node_def tier_suffix_def Let_def)

lemma split_index:
  fixes i :: nat
  assumes "i < 216"
  shows "i = 27 * (i div 27) + 3 * ((i mod 27) div 3) + i mod 3"
    "i div 27 < 8" "(i mod 27) div 3 < 9" "i mod 3 < 3"
    "i div 3 = 9 * (i div 27) + (i mod 27) div 3"
proof -
  have m: "i mod 27 mod 3 = i mod 3" by (simp add: mod_mod_cancel)
  have "i = 27 * (i div 27) + i mod 27" by simp
  also have "i mod 27 = 3 * ((i mod 27) div 3) + i mod 27 mod 3" by simp
  finally show "i = 27 * (i div 27) + 3 * ((i mod 27) div 3) + i mod 3" by (simp add: m)
  show "i div 27 < 8" using assms by simp
  show "(i mod 27) div 3 < 9" by simp
  show "i mod 3 < 3" by simp
  have "i div 3 = (i mod 27 + 3 * (9 * (i div 27))) div 3" by simp
  also have "\<dots> = (i mod 27) div 3 + 9 * (i div 27)" by (simp only: div_mult_self2)
  finally show "i div 3 = 9 * (i div 27) + (i mod 27) div 3" by simp
qed

lemma job_name:
  assumes "i < 216"
  shows "fst (fst (snd (catalog_jobs ! i))) @ tier_suffix (snd (snd (catalog_jobs ! i)))
         = variant_names ! (i div 3) @ [[], ''_mid'', ''_low''] ! (i mod 3)"
proof -
  define c where "c = i div 27"
  define v where "v = (i mod 27) div 3"
  define t where "t = i mod 3"
  note sp = split_index [OF assms, folded c_def v_def t_def]
  have j: "catalog_jobs ! i = (fst (categoryVariants ! c), snd (categoryVariants ! c) ! v, intensityLevels ! t)"
    using jobs_nth [OF sp(2,3,4)] sp(1) by simp
  have "t = 0 \<or> t = 1 \<or> t = 2" using sp(4) by auto
  then have "tier_suffix (intensityLevels ! t) = [[], ''_mid'', ''_low''] ! t"
    using suffix_evals by auto
  then show ?thesis
    using variant_names_nth [OF sp(2,3)] by (simp add: j sp(5) t_def)
qed

lemma base_of_name:
  assumes "CHR ''_'' \<notin> set n" "k < 3"
  shows "takeWhile (\<lambda>c. c \<noteq> CHR ''_'') (n @ [[], ''_mid'', ''_low''] ! k) = n"
proof -
  have k: "k = 0 \<or> k = 1 \<or> k = 2" using assms(2) by auto
  have "takeWhile (\<lambda>c. c \<noteq> CHR ''_'') (n @ s) = n @ takeWhile (\<lambda>c. c \<noteq> CHR ''_'') s" for s
    using assms(1) by (intro takeWhile_append2) auto
  then show ?thesis using k by auto
qed

lemma job_names_inj:
  assumes "i < 216" "j < 216"
    and eq: "fst (fst (snd (catalog_jobs ! i))) @ tier_suffix (snd (snd (catalog_jobs ! i)))
           = fst (fst (snd (catalog_jobs ! j))) @ tier_suffix (snd (snd (catalog_jobs ! j)))"
  shows "i = j"
proof -
  have len: "length variant_names = 72"
    by (simp add: variant_names_def categoryVariants_def)
  have li: "i div 3 < length variant_names" "j div 3 < length variant_names"
    using assms(1,2) len by simp_all
  let ?S = "[[], ''_mid'', ''_low'']"
  from eq have e: "variant_names ! (i div 3) @ ?S ! (i mod 3) = variant_names ! (j div 3) @ ?S ! (j mod 3)"
    by (simp only: job_name [OF assms(1)] job_name [OF assms(2)])
  have pi: "CHR ''_'' \<notin> set (variant_names ! (i div 3))" "CHR ''_'' \<notin> set (variant_names ! (j div 3))"
    using variant_names_plain li by (auto simp: nth_mem)
  have "variant_names ! (i div 3) = takeWhile (\<lambda>c. c \<noteq> CHR ''_'') (variant_names ! (i div 3) @ ?S ! (i mod 3))"
    using pi(1) by (intro base_of_name [symmetric]) simp_all
  also have "\<dots> = variant_names ! (j div 3)"
    unfolding e using pi(2) by (intro base_of_name) simp_all
  finally have n: "variant_names ! (i div 3) = variant_names ! (j div 3)" .
  then have d: "i div 3 = j div 3"
    using variant_names_distinct li by (simp add: nth_eq_iff_index_eq)
  from e n have "?S ! (i mod 3) = ?S ! (j mod 3)" by simp
  moreover have "distinct ?S" by simp
  ultimately have "i mod 3 = j mod 3"
    by (simp add: nth_eq_iff_index_eq)
  moreover have "i = 3 * (i div 3) + i mod 3" "j = 3 * (j div 3) + j mod 3" by simp_all
  ultimately show ?thesis using d by simp
qed

lemma catalog_entry:
  assumes "c < 8" "v < 9" "t < 3"
  shows "initializeEmotions Map.empty (int (27 * c + 3 * v + t)) =
         Some (make_node (int (27 * c + 3 * v + t)) (fst (categoryVariants ! c))
                 (snd (categoryVariants ! c) ! v) (intensityLevels ! t))"
proof -
  have "27 * c + 3 * v + t < 216" using assms by simp
  then show ?thesis
    using jobs_nth [OF assms] by (simp add: init_lookup del: of_nat_add of_nat_mult)
qed

lemma catalog_dom: "dom (initializeEmotions Map.empty) = {0..215}"
  by (auto simp: init_lookup dom_def)

lemma catalog_names_inj:
  assumes "initializeEmotions Map.empty i = Some a" "initializeEmotions Map.empty j = Some b"
    "name a = name b"
  shows "i = j"
proof -
  from assms(1) have i: "0 \<le> i" "i < 216"
    and a: "a = (case catalog_jobs ! nat i of (cat, v, tier) \<Rightarrow> make_node i cat v tier)"
    by (auto simp: init_lookup split: if_splits)
  from assms(2) have j: "0 \<le> j" "j < 216"
    and b: "b = (case catalog_jobs ! nat j of (cat, v, tier) \<Rightarrow> make_node j cat v tier)"
    by (auto simp: init_lookup split: if_splits)
  have na: "name a = fst (fst (snd (catalog_jobs ! nat i))) @ tier_suffix (snd (snd (catalog_jobs ! nat i)))"
    by (simp add: a case_prod_beta make_node_name)
  have nb: "name b = fst (fst (snd (catalog_jobs ! nat j))) @ tier_suffix (snd (snd (catalog_jobs ! nat j)))"
    by (simp add: b case_prod_beta make_node_name)
  have "nat i = nat j"
    using i j assms(3) by (intro job_names_inj) (simp_all add: na nb)
  then show ?thesis using i j by simp
qed


section \<open>Properties of the pipeline\<close>

lemma terror_cmp:
  "fgt (lit 1) (lit (8 / 10))"
  "flt (fmul (lit (- (9 / 10))) (lit 1)) (lit (- (5 / 10)))"
  "fgt (fmul (lit 1) (lit 1)) (lit (7 / 10))"
  by code_simp+

lemma terror_values:
  "lit 1 = Fin False 1"
  "fmul (lit (- (9 / 10))) (lit 1) = Fin True (7549747 / 2 ^ 23)"
  "fmul (lit 1) (lit 1) = Fin False 1"
  by code_simp+

lemma contentment_low_cmp:
  "\<not> fgt (lit (3 / 10)) (lit (8 / 10))"
  "\<not> flt (fmul (lit (7 / 10)) (lit (3 / 10))) (lit (- (5 / 10)))"
  "\<not> fgt (fmul (lit (3 / 10)) (lit (3 / 10))) (lit (7 / 10))"
  by code_simp+

lemma terror_entry:
  "initializeEmotions Map.empty 81 =
     Some (make_node 81 Fear (''terror'', lit (- (9 / 10)), lit 1) (lit 1))"
  using catalog_entry [of 3 0 0] by (simp add: categoryVariants_def intensityLevels_def)

lemma contentment_low_entry:
  "initializeEmotions Map.empty 17 =
     Some (make_node 17 Joy (''contentment'', lit (7 / 10), lit (3 / 10)) (lit (3 / 10)))"
  using catalog_entry [of 0 5 2] by (simp add: categoryVariants_def intensityLevels_def)

lemma fold_fmupd_lookup:
  "distinct (map fst xs) \<Longrightarrow>
   fmlookup (fold (\<lambda>(k, v). fmupd k v) xs p) k =
     (case map_of xs k of Some v \<Rightarrow> Some v | None \<Rightarrow> fmlookup p k)"
proof (induction xs arbitrary: p)
  case Nil
  then show ?case by simp
next
  case (Cons x xs)
  obtain a b where x: "x = (a, b)" by (cases x) auto
  from Cons.prems have d: "distinct (map fst xs)" "a \<notin> fst ` set xs" by (auto simp: x)
  from d(2) have n: "map_of xs a = None" by (simp add: map_of_eq_None_iff)
  show ?case using Cons.IH [OF d(1)] n by (auto simp: x split: option.splits)
qed

lemma overlay_fmadd: "overlay params impact = params ++\<^sub>f impact"
proof (rule fmap_ext)
  fix k
  have "distinct (map fst (sorted_list_of_fmap impact))"
    by (simp add: sorted_list_of_fmap_def comp_def sorted_list_of_fset.rep_eq)
  then have "fmlookup (overlay params impact) k =
      (case map_of (sorted_list_of_fmap impact) k of Some v \<Rightarrow> Some v | None \<Rightarrow> fmlookup params k)"
    unfolding overlay_def by (rule fold_fmupd_lookup)
  then show "fmlookup (overlay params impact) k = fmlookup (params ++\<^sub>f impact) k"
    by (auto simp: fmlookup_dom_iff split: option.splits)
qed

lemma compile_fold:
  "compileMusicalParams em rbs = fold (\<lambda>rb params. params ++\<^sub>f musicalImpact rb) rbs (seed_params em)"
  by (simp add: compileMusicalParams_def seed_params_def Let_def overlay_fmadd)

lemma compile_snoc:
  "compileMusicalParams em (rbs @ [rb]) = compileMusicalParams em rbs ++\<^sub>f musicalImpact rb"
  by (simp add: compile_fold)

lemma fold_fmadd_lookup:
  "fmlookup (fold (\<lambda>rb params. params ++\<^sub>f musicalImpact rb) rbs p) k =
     (case List.find (\<lambda>rb. k |\<in>| fmdom (musicalImpact rb)) (rev rbs) of
        Some rb \<Rightarrow> fmlookup (musicalImpact rb) k
      | None \<Rightarrow> fmlookup p k)"
proof (induction rbs rule: rev_induct)
  case Nil
  then show ?case by simp
next
  case (snoc rb rbs)
  then show ?case by (auto simp: fmlookup_dom_iff split: option.splits)
qed

lemma fold_fmadd_dom:
  "fmdom p |\<subseteq>| fmdom (fold (\<lambda>rb params. params ++\<^sub>f musicalImpact rb) rbs p)"
  by (induction rbs arbitrary: p) (auto simp: fsubset_iff)

lemma seed_dom: "fmdom (seed_params em) = {|''tempo_modifier'', ''mode'', ''dynamics''|}"
  by (auto simp: seed_params_def)

lemma compile_dom: "fmdom (seed_params em) |\<subseteq>| fmdom (compileMusicalParams em rbs)"
  unfolding compile_fold by (rule fold_fmadd_dom)

lemma processIntent_emotion [simp]: "emotion (fst (processIntent p w)) = fst (processWound p w)"
  by (simp add: processIntent_def split: prod.splits option.splits)

lemma processIntent_wound [simp]: "wound (fst (processIntent p w)) = w"
  by (simp add: processIntent_def split: prod.splits option.splits)

lemma emotionToRuleBreaks_fst: "fst (emotionToRuleBreaks p em) = fst (emotionToRuleBreaks p' em)"
  by (simp add: emotionToRuleBreaks_def Let_def)

lemma processIntent_breaks:
  "ruleBreaks (fst (processIntent p w)) =
     (case fst (processWound p w) of
        None \<Rightarrow> []
      | Some (k, node) \<Rightarrow> fst (emotionToRuleBreaks p node))"
  by (auto simp: processIntent_def emotionToRuleBreaks_def Let_def split: prod.splits option.splits)

lemma processIntent_params:
  "musicalParams (fst (processIntent p w)) =
     (case fst (processWound p w) of
        None \<Rightarrow> fmempty
      | Some (k, node) \<Rightarrow> compileMusicalParams node (fst (emotionToRuleBreaks p node)))"
  by (auto simp: processIntent_def emotionToRuleBreaks_def Let_def split: prod.splits option.splits)

lemma compile_nonempty: "compileMusicalParams em rbs \<noteq> fmempty"
proof
  assume "compileMusicalParams em rbs = fmempty"
  then have "fmdom (seed_params em) |\<subseteq>| {||}" using compile_dom [of em rbs] by simp
  then show False by (simp add: seed_dom)
qed

lemma entries_empty [simp]: "entries \<lparr> m_nodes = Map.empty, m_order = [] \<rparr> = []"
  by (simp add: entries_def List.map_filter_simps)

lemma processWound_empty: "fst (processWound empty_processor w) = None"
  by (simp add: processWound_def empty_processor_def findEmotionByName_def Let_def)

lemma processWound_state:
  "snd (processWound p w) = p\<lparr> m_woundHistory := m_woundHistory p @ [w] \<rparr>"
  by (simp add: processWound_def Let_def)

lemma emotionToRuleBreaks_state:
  "snd (emotionToRuleBreaks p em) = p\<lparr> m_ruleBreaks := m_ruleBreaks p @ fst (emotionToRuleBreaks p em) \<rparr>"
  by (simp add: emotionToRuleBreaks_def Let_def)

lemma processIntent_state:
  "snd (processIntent p w) =
     p\<lparr> m_woundHistory := m_woundHistory p @ [w],
        m_ruleBreaks := m_ruleBreaks p @ ruleBreaks (fst (processIntent p w)) \<rparr>"
  by (auto simp: processIntent_def processWound_def emotionToRuleBreaks_def Let_def
           split: prod.splits option.splits)

lemma processWound_logs:
  "fst (processWound (p\<lparr> m_woundHistory := h, m_ruleBreaks := l \<rparr>) w) = fst (processWound p w)"
  by (simp add: processWound_def Let_def)

lemma emotionToRuleBreaks_logs:
  "fst (emotionToRuleBreaks p em) = fst (emotionToRuleBreaks q em)"
  by (simp add: emotionToRuleBreaks_def Let_def)

lemma processIntent_logs:
  "fst (processIntent (p\<lparr> m_woundHistory := h, m_ruleBreaks := l \<rparr>) w) = fst (processIntent p w)"
proof -
  let ?q = "p\<lparr> m_woundHistory := h, m_ruleBreaks := l \<rparr>"
  have f1: "emotion (fst (processIntent ?q w)) = emotion (fst (processIntent p w))"
    unfolding processIntent_emotion by (rule processWound_logs)
  have f2: "ruleBreaks (fst (processIntent ?q w)) = ruleBreaks (fst (processIntent p w))"
    unfolding processIntent_breaks processWound_logs
    by (simp add: emotionToRuleBreaks_logs [of ?q _ p] split: option.splits)
  have f3: "musicalParams (fst (processIntent ?q w)) = musicalParams (fst (processIntent p w))"
    unfolding processIntent_params processWound_logs
    by (simp add: emotionToRuleBreaks_logs [of ?q _ p] split: option.splits)
  show ?thesis by (intro IntentResult.equality) (simp_all add: f2 f3 processWound_logs)
qed

lemma processIntent_engine_only:
  assumes "m_engine p = m_engine q"
  shows "fst (processIntent p w) = fst (processIntent q w)"
proof -
  have "p = q\<lparr> m_woundHistory := m_woundHistory p, m_ruleBreaks := m_ruleBreaks p \<rparr>"
    using assms by (intro IntentProcessor.equality) simp_all
  then show ?thesis
    using processIntent_logs [where p = q and h = "m_woundHistory p" and l = "m_ruleBreaks p" and w = w]
    by simp
qed

lemma after_call_engine: "m_engine (after_call c p) = m_engine p"
  by (cases c) (simp_all add: processWound_state emotionToRuleBreaks_state processIntent_state)

lemma after_call_logs:
  "prefix (m_woundHistory p) (m_woundHistory (after_call c p))"
  "prefix (m_ruleBreaks p) (m_ruleBreaks (after_call c p))"
  by (cases c; simp add: processWound_state emotionToRuleBreaks_state processIntent_state)+

lemma after_calls_engine: "m_engine (after_calls cs p) = m_engine p"
  unfolding after_calls_def by (induction cs arbitrary: p) (simp_all add: after_call_engine)

lemma after_calls_logs:
  "prefix (m_woundHistory p) (m_woundHistory (after_calls cs p))
   \<and> prefix (m_ruleBreaks p) (m_ruleBreaks (after_calls cs p))"
  unfolding after_calls_def
proof (induction cs arbitrary: p)
  case Nil
  then show ?case by simp
next
  case (Cons c cs)
  show ?case
    using Cons.IH [of "after_call c p"] after_call_logs [of p c]
    by (auto intro: prefix_order.trans)
qed

section \<open>Properties of the lookups\<close>

lemma set_map_filter: "set (List.map_filter f xs) = {y. \<exists>x\<in>set xs. f x = Some y}"
  by (induction xs) (auto split: option.splits)

lemma entries_mem: "(k, n) \<in> set (entries e) \<longleftrightarrow> k \<in> set (m_order e) \<and> m_nodes e k = Some n"
  by (auto simp: entries_def set_map_filter)

lemma entries_set:
  "iteration_ok e \<Longrightarrow> set (entries e) = {(k, n). m_nodes e k = Some n}"
  by (auto simp: entries_mem iteration_ok_def)

lemma entries_distinct: "distinct (m_order e) \<Longrightarrow> distinct (entries e)"
proof -
  assume d: "distinct (m_order e)"
  have "distinct (List.map_filter f xs)" if "distinct xs" "inj_on f {x \<in> set xs. f x \<noteq> None}"
    for f :: "int \<Rightarrow> (int \<times> EmotionNode) option" and xs
    using that
  proof (induction xs)
    case Nil
    then show ?case by (simp add: List.map_filter_simps)
  next
    case (Cons x xs)
    have inj: "inj_on f {x \<in> set xs. f x \<noteq> None}"
      using Cons.prems(2) by (rule inj_on_subset) auto
    show ?case
    proof (cases "f x")
      case None
      then show ?thesis using Cons inj by (simp add: List.map_filter_simps)
    next
      case (Some y)
      have "y \<notin> set (List.map_filter f xs)"
      proof
        assume "y \<in> set (List.map_filter f xs)"
        then obtain x' where x': "x' \<in> set xs" "f x' = Some y" by (auto simp: set_map_filter)
        with Some Cons.prems(2) have "x = x'" by (auto simp: inj_on_def)
        with x' Cons.prems(1) show False by simp
      qed
      then show ?thesis using Cons inj Some by (simp add: List.map_filter_simps)
    qed
  qed
  moreover have "inj_on (\<lambda>k. map_option (Pair k) (m_nodes e k)) {x \<in> set (m_order e). map_option (Pair x) (m_nodes e x) \<noteq> None}"
    by (auto simp: inj_on_def)
  ultimately show ?thesis using d unfolding entries_def by blast
qed

lemma findEmotionByName_None:
  "findEmotionByName e nm = None \<longleftrightarrow> (\<forall>(k, n)\<in>set (entries e). name n \<noteq> nm)"
  by (auto simp: findEmotionByName_def find_None_iff)

lemma findEmotionByName_Some:
  "findEmotionByName e nm = Some (k, n) \<Longrightarrow> (k, n) \<in> set (entries e) \<and> name n = nm"
  unfolding findEmotionByName_def find_Some_iff by (metis case_prod_conv nth_mem)

lemma findEmotionByName_catalog:
  assumes "catalog_engine e" "initializeEmotions Map.empty k0 = Some n0"
  shows "findEmotionByName e (name n0) = Some (k0, n0)"
proof -
  from assms have mem: "(k0, n0) \<in> set (entries e)"
    by (simp add: entries_set catalog_engine_def)
  then have "findEmotionByName e (name n0) \<noteq> None"
    by (auto simp: findEmotionByName_None)
  then obtain k n where f: "findEmotionByName e (name n0) = Some (k, n)" by auto
  from findEmotionByName_Some [OF f] have kn: "(k, n) \<in> set (entries e)" "name n = name n0" by auto
  from kn(1) assms(1) have "initializeEmotions Map.empty k = Some n"
    by (simp add: entries_mem catalog_engine_def)
  with assms(2) kn(2) have "k = k0" using catalog_names_inj by blast
  with \<open>initializeEmotions Map.empty k = Some n\<close> assms(2) f show ?thesis by simp
qed

lemma named_entries:
  "initializeEmotions Map.empty 27 = Some (make_node 27 Sadness (''grief'', lit (- (9 / 10)), lit (7 / 10)) (lit 1))"
  "initializeEmotions Map.empty 54 = Some (make_node 54 Anger (''rage'', lit (- (8 / 10)), lit 1) (lit 1))"
  "initializeEmotions Map.empty 93 = Some (make_node 93 Fear (''anxiety'', lit (- (5 / 10)), lit (8 / 10)) (lit 1))"
  "initializeEmotions Map.empty 36 = Some (make_node 36 Sadness (''melancholy'', lit (- (6 / 10)), lit (3 / 10)) (lit 1))"
  using catalog_entry [of 1 0 0] catalog_entry [of 2 0 0] catalog_entry [of 3 4 0] catalog_entry [of 1 3 0]
  by (simp_all add: categoryVariants_def intensityLevels_def)

lemma base_tier_name: "name (make_node i cat (nm, v, a) (lit 1)) = nm"
  using suffix_evals(1) by (simp add: make_node_name intensityLevels_def)

lemma base_tier_intensity: "EmotionNode.intensity (make_node i cat v (lit 1)) = lit 1"
  by (cases v) (simp add: make_node_def Let_def)

lemma trigger_names:
  assumes "catalog_engine e" "nm \<in> {''grief'', ''rage'', ''anxiety'', ''melancholy''}"
  shows "\<exists>k n. findEmotionByName e nm = Some (k, n) \<and> m_nodes e k = Some n \<and> name n = nm
           \<and> EmotionNode.intensity n = lit 1"
proof -
  have ex: "\<exists>k n. initializeEmotions Map.empty k = Some n \<and> name n = x \<and> EmotionNode.intensity n = lit 1"
    if "initializeEmotions Map.empty i = Some (make_node i cat (x, v, a) (lit 1))" for i cat x v a
    using that base_tier_name [of i cat x v a] base_tier_intensity [of i cat "(x, v, a)"] by blast
  have "\<exists>k n. initializeEmotions Map.empty k = Some n \<and> name n = nm \<and> EmotionNode.intensity n = lit 1"
    using assms(2) ex [OF named_entries(1)] ex [OF named_entries(2)] ex [OF named_entries(3)]
      ex [OF named_entries(4)] by (elim insertE emptyE) simp_all
  then obtain k n where kn: "initializeEmotions Map.empty k = Some n" "name n = nm"
    "EmotionNode.intensity n = lit 1" by blast
  from findEmotionByName_catalog [OF assms(1) kn(1)] kn assms(1)
  show ?thesis by (auto simp: catalog_engine_def)
qed

lemma str_find_iff: "str_find s pat \<noteq> None \<longleftrightarrow> sublist pat s"
  by (induction s) (auto simp: sublist_Cons_right)

text \<open>
  \<^verbatim>\<open>std::tolower\<close>, computed on the character code, agrees with the table of the letters
  on each of the 256 characters.
\<close>

lemma tolower_spec_lower: "tolower c = spec_lower c"
proof (cases c)
  case (Char b0 b1 b2 b3 b4 b5 b6 b7)
  show ?thesis
    unfolding Char
    by (cases b0; cases b1; cases b2; cases b3; cases b4; cases b5; cases b6; cases b7;
        simp add: tolower_def spec_lower_def Let_def char_of_def bit_Suc_0_iff)
qed

lemma map_tolower: "map tolower d = map spec_lower d"
  by (simp add: tolower_spec_lower)

lemma processWound_classify:
  "fst (processWound p w) = findEmotionByName (m_engine p) (classify_spec (Wound.description w))"
  by (simp add: processWound_def classify_spec_def Let_def map_tolower flip: str_find_iff)

lemma catalog_engine_new: "catalog_engine (new_EmotionEngine ascending_order)"
  by (simp add: catalog_engine_def new_EmotionEngine_def iteration_ok_def catalog_dom
        ascending_order_def)

lemma sample_processor_engine:
  "catalog_engine (m_engine sample_processor)"
  "m_nodes (m_engine sample_processor) = initializeEmotions Map.empty"
  using catalog_engine_new
  by (simp_all add: sample_processor_def new_IntentProcessor_def new_EmotionEngine_def)

lemma classify_spec_range:
  "classify_spec d \<in> {''grief'', ''rage'', ''anxiety'', ''melancholy''}"
  by (simp add: classify_spec_def Let_def)

lemma processWound_found:
  assumes "catalog_engine (m_engine p)"
  shows "\<exists>k n. fst (processWound p w) = Some (k, n) \<and> m_nodes (m_engine p) k = Some n
           \<and> name n = classify_spec (Wound.description w)"
  using trigger_names [OF assms classify_spec_range [of "Wound.description w"]]
  unfolding processWound_classify by blast

lemma classify_examples:
  "classify_spec ''I feel overwhelming loss'' = ''grief''"
  "classify_spec ''pure rage inside'' = ''rage''"
  "classify_spec ''constant anxiety'' = ''anxiety''"
  "classify_spec ''a quiet afternoon'' = ''melancholy''"
  by code_simp+

lemma classify_capitals:
  "classify_spec ''PURE RAGE INSIDE'' = ''rage''"
  "classify_spec ''Constant Anxiety'' = ''anxiety''"
  "classify_spec ''GRIEF'' = ''grief''"
  "classify_spec ''fear of loss'' = ''grief''"
  "classify_spec ''anger and anxiety'' = ''rage''"
  "map tolower ''@AZ[ Pure RAGE, Loss & Fear {1}'' = ''@az[ pure rage, loss & fear {1}''"
  by code_simp+

section \<open>The coordinates of the catalog\<close>

lemma unit_mag_lit: "(r = 0 \<or> 1 / 16 \<le> \<bar>r\<bar>) \<and> \<bar>r\<bar> \<le> 1 \<Longrightarrow> unit_mag (lit r)"
  using lit_ok [of r] by simp

lemma coord_ok_lit: "(r = 0 \<or> 1 / 16 \<le> \<bar>r\<bar>) \<and> \<bar>r\<bar> \<le> 1 \<Longrightarrow> coord_ok (lit r)"
  using lit_ok [of r] by simp

lemma table_magnitudes:
  "\<forall>cv\<in>set categoryVariants. \<forall>v\<in>set (snd cv). unit_mag (fst (snd v)) \<and> unit_mag (snd (snd v))"
  by (simp add: categoryVariants_def unit_mag_lit)

lemma tier_magnitudes: "\<forall>t\<in>set intensityLevels. unit_mag t \<and> coord_ok t"
  by (simp add: intensityLevels_def unit_mag_lit coord_ok_lit)

lemma jobs_mem:
  "(cat, v, tier) \<in> set catalog_jobs \<Longrightarrow>
   (\<exists>vs. (cat, vs) \<in> set categoryVariants \<and> v \<in> set vs) \<and> tier \<in> set intensityLevels"
  by (auto simp: catalog_jobs_def)

lemma catalog_point_ok:
  assumes "initializeEmotions Map.empty i = Some n"
  shows "point_ok n"
proof -
  from assms have i: "0 \<le> i" "i < 216"
    and n: "n = (case catalog_jobs ! nat i of (cat, v, tier) \<Rightarrow> make_node i cat v tier)"
    by (auto simp: init_lookup split: if_splits)
  obtain cat nm bv ba tier where j: "catalog_jobs ! nat i = (cat, (nm, bv, ba), tier)"
    by (metis prod_cases3)
  have "catalog_jobs ! nat i \<in> set catalog_jobs"
    using i by (intro nth_mem) (simp add: length_jobs)
  from jobs_mem [OF this [unfolded j]] obtain vs where
    m: "(cat, vs) \<in> set categoryVariants" "(nm, bv, ba) \<in> set vs" "tier \<in> set intensityLevels"
    by blast
  from table_magnitudes m(1,2) have b: "unit_mag bv" "unit_mag ba" by fastforce+
  from tier_magnitudes m(3) have t: "unit_mag tier" "coord_ok tier" by auto
  have "valence n = fmul bv tier" "arousal n = fmul ba tier" "EmotionNode.intensity n = tier"
    by (simp_all add: n j make_node_def Let_def)
  then show ?thesis using b t by (simp add: point_ok_def fmul_coord)
qed

lemma same_point_entries:
  "initializeEmotions Map.empty 39 = Some (make_node 39 Sadness (''gloom'', lit (- (5 / 10)), lit (4 / 10)) (lit 1))"
  "initializeEmotions Map.empty 78 = Some (make_node 78 Anger (''bitterness'', lit (- (5 / 10)), lit (4 / 10)) (lit 1))"
  using catalog_entry [of 1 4 0] catalog_entry [of 2 8 0]
  by (simp_all add: categoryVariants_def intensityLevels_def)

lemma same_point_refl: "point_ok a \<Longrightarrow> same_point a a"
proof -
  have "feq x x" if "coord_ok x" for x using that by (cases x) auto
  then show "point_ok a \<Longrightarrow> same_point a a" by (simp add: point_ok_def same_point_def)
qed

lemma gloom_bitterness:
  "initializeEmotions Map.empty 39 = Some gloom" "initializeEmotions Map.empty 78 = Some bitterness"
  "same_point gloom bitterness"
proof -
  show g: "initializeEmotions Map.empty 39 = Some gloom"
    and b: "initializeEmotions Map.empty 78 = Some bitterness"
    unfolding gloom_def bitterness_def by (rule same_point_entries)+
  have "same_point gloom gloom" using catalog_point_ok [OF g] by (rule same_point_refl)
  moreover have "valence bitterness = valence gloom" "arousal bitterness = arousal gloom"
    "EmotionNode.intensity bitterness = EmotionNode.intensity gloom"
    by (simp_all add: gloom_def bitterness_def make_node_def Let_def)
  ultimately show "same_point gloom bitterness" by (simp add: same_point_def)
qed

lemma nearby_mem:
  "(k, n) \<in> set (getNearbyEmotions e i t) \<longleftrightarrow>
     (\<exists>src. m_nodes e i = Some src \<and> (k, n) \<in> set (entries e) \<and> k \<noteq> i
        \<and> flt (calculateDistance src n) t)"
  by (cases "m_nodes e i") (auto simp: getNearbyEmotions_def getEmotion_def)

lemma small_engine_nearby: "map fst (getNearbyEmotions small_engine 39 (lit (1 / 10))) = [78]"
  by code_simp

lemma small_engine_ok: "iteration_ok small_engine" "m_nodes small_engine 39 = Some gloom"
  "m_nodes small_engine 5 = None"
  by (auto simp: iteration_ok_def small_engine_def)

section \<open>Accuracy of the rounding functions\<close>

lemma rnd_even_error: "\<bar>of_int (rnd_even x) - x\<bar> \<le> 1 / 2"
proof -
  have "of_int \<lfloor>x\<rfloor> \<le> x" "x < of_int \<lfloor>x\<rfloor> + 1" by linarith+
  then show ?thesis by (auto simp: rnd_even_def Let_def abs_le_iff)
qed

lemma round_mag_error:
  assumes "0 < q"
  shows "\<bar>round_mag q - q\<bar> \<le> pow2 (ulp_exp q) / 2"
proof -
  define u where "u = pow2 (ulp_exp q)"
  have u0: "0 < u" by (simp add: u_def)
  have "round_mag q - q = (of_int (rnd_even (q / u)) - q / u) * u"
    using assms u0 by (simp add: round_mag_def u_def field_simps)
  then have "\<bar>round_mag q - q\<bar> = \<bar>of_int (rnd_even (q / u)) - q / u\<bar> * u"
    using u0 by (simp add: abs_mult)
  also have "\<dots> \<le> 1 / 2 * u"
    using rnd_even_error [of "q / u"] u0 by (intro mult_right_mono) simp_all
  finally show ?thesis by (simp add: u_def)
qed

lemma isqrt_correct:
  "0 \<le> n \<Longrightarrow> isqrt n * isqrt n \<le> n \<and> n < (isqrt n + 1) * (isqrt n + 1)"
proof (induction n rule: isqrt.induct)
  case (1 n)
  show ?case
  proof (cases "n < 4")
    case True
    with "1.prems" show ?thesis by (auto simp: isqrt.simps [of n])
  next
    case False
    define m where "m = n div 4"
    define s where "s = isqrt m"
    from False "1.prems" "1.IH" have ih: "s * s \<le> m" "m < (s + 1) * (s + 1)"
      by (auto simp: m_def s_def)
    have m: "4 * m \<le> n" "n < 4 * m + 4" by (simp_all add: m_def)
    have lo: "(2 * s) * (2 * s) \<le> n" using ih(1) m(1) by (simp add: algebra_simps)
    have "m + 1 \<le> (s + 1) * (s + 1)" using ih(2) by simp
    then have hi: "n < (2 * s + 2) * (2 * s + 2)" using m(2) by (simp add: algebra_simps)
    have e: "isqrt n = (if (2 * s + 1) * (2 * s + 1) \<le> n then 2 * s + 1 else 2 * s)"
      using False by (simp add: isqrt.simps [of n] Let_def m_def s_def)
    show ?thesis
    proof (cases "(2 * s + 1) * (2 * s + 1) \<le> n")
      case True
      then show ?thesis using hi by (simp add: e algebra_simps)
    next
      case False
      then show ?thesis using lo by (simp add: e algebra_simps)
    qed
  qed
qed

lemma sqrt_rnd_nearest:
  assumes "0 \<le> y"
  shows "y \<le> (of_int (sqrt_rnd y) + 1 / 2) * (of_int (sqrt_rnd y) + 1 / 2)"
    and "1 \<le> sqrt_rnd y \<Longrightarrow> (of_int (sqrt_rnd y) - 1 / 2) * (of_int (sqrt_rnd y) - 1 / 2) \<le> y"
proof -
  define n where "n = isqrt \<lfloor>y\<rfloor>"
  define x :: rat where "x = of_int n"
  have f0: "0 \<le> \<lfloor>y\<rfloor>" using assms by simp
  from isqrt_correct [OF f0] have c: "n * n \<le> \<lfloor>y\<rfloor>" "\<lfloor>y\<rfloor> + 1 \<le> (n + 1) * (n + 1)"
    by (simp_all add: n_def)
  have "(of_int (n * n) :: rat) \<le> of_int \<lfloor>y\<rfloor>" using c(1) by (simp only: of_int_le_iff)
  moreover have "(of_int \<lfloor>y\<rfloor> :: rat) \<le> y" by (rule of_int_floor_le)
  ultimately have lo: "x * x \<le> y" unfolding x_def of_int_mult by (rule order_trans)
  have "(of_int (\<lfloor>y\<rfloor> + 1) :: rat) \<le> of_int ((n + 1) * (n + 1))" using c(2) by (simp only: of_int_le_iff)
  moreover have "y < of_int (\<lfloor>y\<rfloor> + 1)" by simp linarith
  ultimately have hi: "y < (x + 1) * (x + 1)" by (simp add: x_def)
  have n0: "0 \<le> x" using isqrt_nonneg [of "\<lfloor>y\<rfloor>"] by (simp add: x_def n_def)
  have r: "sqrt_rnd y = n \<and> y \<le> (x + 1 / 2) * (x + 1 / 2)
         \<or> sqrt_rnd y = n + 1 \<and> (x + 1 / 2) * (x + 1 / 2) \<le> y"
    by (auto simp: sqrt_rnd_def Let_def n_def [symmetric] x_def [symmetric])
  have e1: "of_int (n + 1) = x + 1" by (simp add: x_def)
  from r show "y \<le> (of_int (sqrt_rnd y) + 1 / 2) * (of_int (sqrt_rnd y) + 1 / 2)"
  proof (elim disjE conjE)
    assume a: "sqrt_rnd y = n" "y \<le> (x + 1 / 2) * (x + 1 / 2)"
    then show ?thesis unfolding a(1) x_def [symmetric] by simp
  next
    assume a: "sqrt_rnd y = n + 1"
    have "(x + 1) * (x + 1) \<le> (x + 1 + 1 / 2) * (x + 1 + 1 / 2)"
      using n0 by (simp add: algebra_simps)
    with hi show ?thesis unfolding a e1 by linarith
  qed
  show "(of_int (sqrt_rnd y) - 1 / 2) * (of_int (sqrt_rnd y) - 1 / 2) \<le> y" if "1 \<le> sqrt_rnd y"
  proof -
    from r show ?thesis
    proof (elim disjE conjE)
      assume a: "sqrt_rnd y = n"
      with that have "1 \<le> x" by (simp add: x_def)
      then have "(x - 1 / 2) * (x - 1 / 2) \<le> x * x" by (simp add: algebra_simps)
      with lo show ?thesis unfolding a x_def [symmetric] by linarith
    next
      assume a: "sqrt_rnd y = n + 1" "(x + 1 / 2) * (x + 1 / 2) \<le> y"
      have "x + 1 - 1 / 2 = x + 1 / 2" by simp
      with a(2) show ?thesis unfolding a(1) e1 by (simp add: add.commute)
    qed
  qed
qed

text \<open>
  Three values as the hardware has them: \<^verbatim>\<open>0.8f\<close> is \<^verbatim>\<open>0x3F4CCCCD\<close>, the product
  \<^verbatim>\<open>0.7f * 0.3f\<close> is \<^verbatim>\<open>0x3E570A3E\<close>, and \<^verbatim>\<open>std::sqrt(2.0f)\<close> is \<^verbatim>\<open>0x3FB504F3\<close>.
\<close>

lemma binary32_examples:
  "lit (8 / 10) = Fin False (13421773 / 2 ^ 24)"
  "fmul (lit (7 / 10)) (lit (3 / 10)) = Fin False (14092862 / 2 ^ 26)"
  "fsqrt (lit 2) = Fin False (11863283 / 2 ^ 23)"
  by code_simp+

lemma isqrt_ge_pow:
  assumes "2 ^ 46 \<le> m"
  shows "2 ^ 23 \<le> isqrt m"
proof (rule ccontr)
  assume "\<not> 2 ^ 23 \<le> isqrt m"
  then have a: "isqrt m + 1 \<le> 2 ^ 23" by simp
  have n0: "0 \<le> isqrt m + 1" using isqrt_nonneg [of m] by simp
  have "(isqrt m + 1) * (isqrt m + 1) \<le> 2 ^ 23 * 2 ^ 23"
    using a n0 by (intro mult_mono) simp_all
  moreover have "m < (isqrt m + 1) * (isqrt m + 1)"
    using isqrt_correct [of m] assms by simp
  ultimately show False using assms by simp
qed

lemma sqrt32_accuracy:
  assumes "pow2 (- 126) \<le> q" "sqrt32 q = Fin t d"
  shows "\<not> t \<and> 0 < d
         \<and> (d * (1 - 1 / 2 ^ 24)) * (d * (1 - 1 / 2 ^ 24)) \<le> q
         \<and> q \<le> (d * (1 + 1 / 2 ^ 24)) * (d * (1 + 1 / 2 ^ 24))"
proof -
  define k where "k = ilog2 q div 2"
  define u where "u = pow2 (k - 23)"
  define y where "y = q / (u * u)"
  define N :: rat where "N = of_int (sqrt_rnd y)"
  have q0: "0 < q" using assms(1) by (rule pow2_le_pos)
  have e: "- 126 \<le> ilog2 q" using ilog2_ge [OF assms(1)] .
  then have m: "max (ilog2 q div 2) (- 126) = k" by (simp add: k_def)
  have u0: "0 < u" by (simp add: u_def)
  have uu: "u * u = pow2 (2 * k - 46)"
    using pow2_add [of "k - 23" "k - 23"] by (simp add: u_def)
  have "pow2 (2 * k) \<le> pow2 (ilog2 q)" by (rule pow2_mono) (simp add: k_def)
  also have "\<dots> \<le> q" using ilog2_bounds [OF q0] by simp
  finally have "pow2 (2 * k) / (u * u) \<le> y"
    unfolding y_def using u0 by (intro divide_right_mono) simp_all
  moreover have "pow2 (2 * k) / (u * u) = pow2 46"
    unfolding uu using pow2_diff [of "2 * k" "2 * k - 46"] by simp
  ultimately have y46: "2 ^ 46 \<le> y" by (simp add: pow2_def)
  then have y0: "0 \<le> y" by simp
  have "(2 ^ 46 :: int) \<le> \<lfloor>y\<rfloor>" using y46 by (simp add: le_floor_iff)
  then have "2 ^ 23 \<le> isqrt \<lfloor>y\<rfloor>" by (rule isqrt_ge_pow)
  then have n23: "2 ^ 23 \<le> sqrt_rnd y" using sqrt_rnd_ge [of y] by linarith
  then have N23: "2 ^ 23 \<le> N" unfolding N_def by (metis of_int_le_iff of_int_numeral of_int_power)
  have near: "y \<le> (N + 1 / 2) * (N + 1 / 2)" "(N - 1 / 2) * (N - 1 / 2) \<le> y"
    using sqrt_rnd_nearest [OF y0] n23 by (simp_all add: N_def)
  have lo1: "0 \<le> N * (1 - 1 / 2 ^ 24)" "N * (1 - 1 / 2 ^ 24) \<le> N - 1 / 2"
    using N23 by (simp_all add: algebra_simps)
  have hi1: "0 \<le> N + 1 / 2" "N + 1 / 2 \<le> N * (1 + 1 / 2 ^ 24)"
    using N23 by (simp_all add: algebra_simps)
  have "(N * (1 - 1 / 2 ^ 24)) * (N * (1 - 1 / 2 ^ 24)) \<le> (N - 1 / 2) * (N - 1 / 2)"
    using lo1 by (intro mult_mono) simp_all
  with near(2) have lo: "(N * (1 - 1 / 2 ^ 24)) * (N * (1 - 1 / 2 ^ 24)) \<le> y" by linarith
  have "(N + 1 / 2) * (N + 1 / 2) \<le> (N * (1 + 1 / 2 ^ 24)) * (N * (1 + 1 / 2 ^ 24))"
    using hi1 by (intro mult_mono) simp_all
  with near(1) have hi: "y \<le> (N * (1 + 1 / 2 ^ 24)) * (N * (1 + 1 / 2 ^ 24))" by linarith
  have q: "q = y * (u * u)" using u0 by (simp add: y_def)
  have qlo: "(N * u * (1 - 1 / 2 ^ 24)) * (N * u * (1 - 1 / 2 ^ 24)) \<le> q"
  proof -
    have "(N * (1 - 1 / 2 ^ 24)) * (N * (1 - 1 / 2 ^ 24)) * (u * u) \<le> y * (u * u)"
      using lo u0 by (intro mult_right_mono) simp_all
    then show ?thesis unfolding q by (simp add: mult_ac)
  qed
  have qhi: "q \<le> (N * u * (1 + 1 / 2 ^ 24)) * (N * u * (1 + 1 / 2 ^ 24))"
  proof -
    have "y * (u * u) \<le> (N * (1 + 1 / 2 ^ 24)) * (N * (1 + 1 / 2 ^ 24)) * (u * u)"
      using hi u0 by (intro mult_right_mono) simp_all
    then show ?thesis unfolding q by (simp add: mult_ac)
  qed
  have m': "max k (- 126) = k" using e by (simp add: k_def)
  have res: "sqrt32 q = (if pow2 128 \<le> N * u then Infty False else Fin False (N * u))"
    by (simp add: sqrt32_def Let_def k_def [symmetric] m' u_def [symmetric] y_def [symmetric] N_def)
  with assms(2) have td: "t = False" "d = N * u" by (auto split: if_splits)
  have "0 < N" using N23 by (rule less_le_trans [rotated]) simp
  then have "0 < N * u" using u0 by simp
  then show ?thesis using qlo qhi by (simp add: td)
qed

lemma sqrt_bracket:
  fixes d s :: rat
  assumes "0 < d" "(d * (1 - 1 / 2 ^ 24)) * (d * (1 - 1 / 2 ^ 24)) \<le> s"
    "s \<le> (d * (1 + 1 / 2 ^ 24)) * (d * (1 + 1 / 2 ^ 24))"
  shows "\<bar>real_of_rat d - sqrt (real_of_rat s)\<bar> \<le> real_of_rat d / 2 ^ 24"
proof -
  define D where "D = real_of_rat d"
  define S where "S = real_of_rat s"
  have D0: "0 < D" using assms(1) by (simp add: D_def)
  have "real_of_rat ((d * (1 - 1 / 2 ^ 24)) * (d * (1 - 1 / 2 ^ 24))) \<le> S"
    unfolding S_def using assms(2) by (simp only: of_rat_less_eq)
  then have l: "(D * (1 - 1 / 2 ^ 24))\<^sup>2 \<le> S"
    by (simp add: D_def of_rat_mult of_rat_diff of_rat_divide of_rat_power power2_eq_square)
  have "S \<le> real_of_rat ((d * (1 + 1 / 2 ^ 24)) * (d * (1 + 1 / 2 ^ 24)))"
    unfolding S_def using assms(3) by (simp only: of_rat_less_eq)
  then have h: "S \<le> (D * (1 + 1 / 2 ^ 24))\<^sup>2"
    by (simp add: D_def of_rat_mult of_rat_add of_rat_divide of_rat_power power2_eq_square)
  have "D * (1 - 1 / 2 ^ 24) \<le> sqrt S" using l by (rule real_le_rsqrt)
  then have a: "D - sqrt S \<le> D / 2 ^ 24" by (simp add: algebra_simps)
  have "sqrt S \<le> D * (1 + 1 / 2 ^ 24)" using h D0 by (intro real_le_lsqrt) simp_all
  then have b: "sqrt S - D \<le> D / 2 ^ 24" by (simp add: algebra_simps)
  show ?thesis unfolding D_def [symmetric] S_def [symmetric] using a b by linarith
qed

lemma fsqrt_accuracy:
  assumes "1 / 2 ^ 126 \<le> s" "fsqrt (Fin False s) = Fin t d"
  shows "\<not> t \<and> 0 < d \<and> \<bar>real_of_rat d - sqrt (real_of_rat s)\<bar> \<le> real_of_rat d / 2 ^ 24"
proof -
  have p: "pow2 (- 126) \<le> s" using assms(1) by (simp add: pow2_def)
  then have "0 < s" by (rule pow2_le_pos)
  then have "sqrt32 s = Fin t d" using assms(2) by simp
  from sqrt32_accuracy [OF p this]
  have a: "\<not> t" "0 < d" "(d * (1 - 1 / 2 ^ 24)) * (d * (1 - 1 / 2 ^ 24)) \<le> s"
    "s \<le> (d * (1 + 1 / 2 ^ 24)) * (d * (1 + 1 / 2 ^ 24))" by simp_all
  from a(1,2) sqrt_bracket [OF a(2,3,4)] show ?thesis by (intro conjI)
qed

lemma calculateDistance_squared: "calculateDistance a b = fsqrt (squared_distance a b)"
  by (simp add: calculateDistance_def squared_distance_def Let_def)

lemma distance_examples:
  "calculateDistance (probe (lit 3) (lit 4) (lit 0)) (probe (lit 0) (lit 0) (lit 0)) = Fin False 5"
  "calculateDistance (probe (lit 1) (lit 2) (lit 3)) (probe (lit 3) (lit 5) (lit (- 3))) = Fin False 7"
  "calculateDistance (probe (lit 1) (lit 0) (lit 1)) (probe (lit 0) (lit 0) (lit 0))
     = Fin False (11863283 / 2 ^ 23)"
  "squared_distance grief gloom = Fin False (8388607 / 2 ^ 25)"
  "calculateDistance grief gloom = Fin False (16777215 / 2 ^ 25)"
  "\<not> same_point grief gloom"
  by code_simp+

lemma grief_entry: "initializeEmotions Map.empty 27 = Some grief"
  unfolding grief_def by (rule named_entries)

section \<open>The statements of the specification\<close>

text \<open>
  C1.  After construction the container holds nodes under exactly the ids 0..215, that is
  216 of them; the id 27c + 3v + t holds the node of category number c, variant number v
  and tier number t (categories and variants in the order of the table, tiers in the
  order 1.0, 0.6, 0.3), carrying that id; and two different ids never carry the same name.
\<close>

theorem catalog_dense_and_unique:
  "dom (initializeEmotions Map.empty) = {0..215}
   \<and> card (dom (initializeEmotions Map.empty)) = 216
   \<and> map fst categoryVariants = [Joy, Sadness, Anger, Fear, Surprise, Disgust, Trust, Anticipation]
   \<and> intensityLevels = [lit 1, lit (6 / 10), lit (3 / 10)]
   \<and> (\<forall>c<8. \<forall>v<9. \<forall>t<3.
         \<exists>n. initializeEmotions Map.empty (int (27 * c + 3 * v + t)) = Some n
            \<and> node_id n = int (27 * c + 3 * v + t)
            \<and> category n = fst (categoryVariants ! c)
            \<and> name n = fst (snd (categoryVariants ! c) ! v) @ [[], ''_mid'', ''_low''] ! t
            \<and> EmotionNode.intensity n = intensityLevels ! t)
   \<and> (\<forall>i j a b. initializeEmotions Map.empty i = Some a
            \<and> initializeEmotions Map.empty j = Some b \<and> i \<noteq> j \<longrightarrow> name a \<noteq> name b)"
proof (intro conjI allI impI)
  show "dom (initializeEmotions Map.empty) = {0..215}" by (rule catalog_dom)
  show "card (dom (initializeEmotions Map.empty)) = 216" by (simp add: catalog_dom)
  show "map fst categoryVariants = [Joy, Sadness, Anger, Fear, Surprise, Disgust, Trust, Anticipation]"
    by (simp add: categoryVariants_def)
  show "intensityLevels = [lit 1, lit (6 / 10), lit (3 / 10)]" by (rule intensityLevels_def)
next
  fix c v t :: nat
  assume h: "c < 8" "v < 9" "t < 3"
  let ?n = "make_node (int (27 * c + 3 * v + t)) (fst (categoryVariants ! c))
                 (snd (categoryVariants ! c) ! v) (intensityLevels ! t)"
  have "t = 0 \<or> t = 1 \<or> t = 2" using h(3) by auto
  then have "tier_suffix (intensityLevels ! t) = [[], ''_mid'', ''_low''] ! t"
    using suffix_evals by auto
  then have "name ?n = fst (snd (categoryVariants ! c) ! v) @ [[], ''_mid'', ''_low''] ! t"
    by (simp add: make_node_name)
  moreover have "node_id ?n = int (27 * c + 3 * v + t)" "category ?n = fst (categoryVariants ! c)"
    "EmotionNode.intensity ?n = intensityLevels ! t"
    by (simp_all add: make_node_def case_prod_beta Let_def)
  ultimately show "\<exists>n. initializeEmotions Map.empty (int (27 * c + 3 * v + t)) = Some n
            \<and> node_id n = int (27 * c + 3 * v + t)
            \<and> category n = fst (categoryVariants ! c)
            \<and> name n = fst (snd (categoryVariants ! c) ! v) @ [[], ''_mid'', ''_low''] ! t
            \<and> EmotionNode.intensity n = intensityLevels ! t"
    using catalog_entry [OF h] by blast
next
  fix i j a b
  assume "initializeEmotions Map.empty i = Some a
            \<and> initializeEmotions Map.empty j = Some b \<and> i \<noteq> j"
  then show "name a \<noteq> name b" using catalog_names_inj [of i a j b] by blast
qed

theorem catalog_dense_and_unique_witness:
  "(1::nat) < 8 \<and> (0::nat) < 9 \<and> (1::nat) < 3
   \<and> (\<exists>n. initializeEmotions Map.empty 28 = Some n \<and> node_id n = 28 \<and> category n = Sadness
          \<and> name n = ''grief_mid'' \<and> EmotionNode.intensity n = lit (6 / 10))
   \<and> (initializeEmotions Map.empty 27 \<noteq> None \<and> initializeEmotions Map.empty 28 \<noteq> None \<and> (27::int) \<noteq> 28
      \<and> name (the (initializeEmotions Map.empty 27)) \<noteq> name (the (initializeEmotions Map.empty 28)))"
proof -
  note th = catalog_dense_and_unique
  from th have gen: "\<forall>c<8. \<forall>v<9. \<forall>t<3.
         \<exists>n. initializeEmotions Map.empty (int (27 * c + 3 * v + t)) = Some n
            \<and> node_id n = int (27 * c + 3 * v + t)
            \<and> category n = fst (categoryVariants ! c)
            \<and> name n = fst (snd (categoryVariants ! c) ! v) @ [[], ''_mid'', ''_low''] ! t
            \<and> EmotionNode.intensity n = intensityLevels ! t" by (elim conjE)
  from th have inj: "\<forall>i j a b. initializeEmotions Map.empty i = Some a
            \<and> initializeEmotions Map.empty j = Some b \<and> i \<noteq> j \<longrightarrow> name a \<noteq> name b" by (elim conjE)
  from th have d: "dom (initializeEmotions Map.empty) = {0..215}" by (elim conjE)
  have k: "(1::nat) < 8" "(0::nat) < 9" "(1::nat) < 3" by simp_all
  from gen [rule_format, OF k]
  have e28: "\<exists>n. initializeEmotions Map.empty 28 = Some n \<and> node_id n = 28 \<and> category n = Sadness
          \<and> name n = ''grief_mid'' \<and> EmotionNode.intensity n = lit (6 / 10)"
    by (simp add: categoryVariants_def intensityLevels_def)
  have "(27::int) \<in> dom (initializeEmotions Map.empty)" "(28::int) \<in> dom (initializeEmotions Map.empty)"
    unfolding d by simp_all
  then obtain a b where ab: "initializeEmotions Map.empty 27 = Some a" "initializeEmotions Map.empty 28 = Some b"
    by auto
  have "name a \<noteq> name b" using inj [rule_format, of 27 a 28 b] ab by simp
  then show ?thesis using k e28 ab by simp
qed



text \<open>
  C3.  For every node, emotionToRuleBreaks checks three independent thresholds in the
  order dynamics, harmony, rhythm: intensity > 0.8 gives a "dynamics" break of severity
  intensity, valence < -0.5 a "harmony" break of severity abs(valence), arousal > 0.7 a
  "rhythm" break of severity arousal.  The absolute value clears the sign and keeps the
  magnitude (and keeps a NaN).  The breaks are returned in that order, at most three, and
  the same sequence is appended to the rule-break log.  The node "terror" (id 81), of
  valence -0.9 (in single precision -7549747 / 2^23), gives all three in order, with the
  severities 1, 0.9 (that is 7549747 / 2^23, positive) and 1; the node "contentment_low"
  (id 17) gives none.
\<close>

theorem rule_breaks_thresholds:
  "fst (emotionToRuleBreaks p em) =
       (if fgt (EmotionNode.intensity em) (lit (8 / 10)) then [dynamics_break em] else [])
     @ (if flt (valence em) (lit (- (5 / 10))) then [harmony_break em] else [])
     @ (if fgt (arousal em) (lit (7 / 10)) then [rhythm_break em] else [])
   \<and> ruleType (dynamics_break em) = ''dynamics''
   \<and> severity (dynamics_break em) = EmotionNode.intensity em
   \<and> ruleType (harmony_break em) = ''harmony''
   \<and> severity (harmony_break em) = fabs (valence em)
   \<and> severity (harmony_break em) =
       (case valence em of NaN \<Rightarrow> NaN | Infty s \<Rightarrow> Infty False | Fin s q \<Rightarrow> Fin False q)
   \<and> ruleType (rhythm_break em) = ''rhythm''
   \<and> severity (rhythm_break em) = arousal em
   \<and> length (fst (emotionToRuleBreaks p em)) \<le> 3
   \<and> m_ruleBreaks (snd (emotionToRuleBreaks p em)) = m_ruleBreaks p @ fst (emotionToRuleBreaks p em)
   \<and> m_woundHistory (snd (emotionToRuleBreaks p em)) = m_woundHistory p
   \<and> m_engine (snd (emotionToRuleBreaks p em)) = m_engine p
   \<and> (\<exists>terror. initializeEmotions Map.empty 81 = Some terror \<and> name terror = ''terror''
         \<and> EmotionNode.intensity terror = lit 1
         \<and> valence terror = Fin True (7549747 / 2 ^ 23)
         \<and> map ruleType (fst (emotionToRuleBreaks p terror)) = [''dynamics'', ''harmony'', ''rhythm'']
         \<and> map severity (fst (emotionToRuleBreaks p terror))
             = [Fin False 1, Fin False (7549747 / 2 ^ 23), Fin False 1])
   \<and> (\<exists>low. initializeEmotions Map.empty 17 = Some low \<and> name low = ''contentment_low''
         \<and> EmotionNode.intensity low = lit (3 / 10)
         \<and> fst (emotionToRuleBreaks p low) = [])"
proof -
  have gen: "fst (emotionToRuleBreaks p em) =
       (if fgt (EmotionNode.intensity em) (lit (8 / 10)) then [dynamics_break em] else [])
     @ (if flt (valence em) (lit (- (5 / 10))) then [harmony_break em] else [])
     @ (if fgt (arousal em) (lit (7 / 10)) then [rhythm_break em] else [])" for p em
    by (simp add: emotionToRuleBreaks_def Let_def)
  have len: "length (fst (emotionToRuleBreaks p em)) \<le> 3"
    unfolding gen by simp
  have st: "m_ruleBreaks (snd (emotionToRuleBreaks p em)) = m_ruleBreaks p @ fst (emotionToRuleBreaks p em)"
    "m_woundHistory (snd (emotionToRuleBreaks p em)) = m_woundHistory p"
    "m_engine (snd (emotionToRuleBreaks p em)) = m_engine p"
    by (simp_all add: emotionToRuleBreaks_def Let_def)
  have fields: "ruleType (dynamics_break em) = ''dynamics''"
    "severity (dynamics_break em) = EmotionNode.intensity em"
    "ruleType (harmony_break em) = ''harmony''"
    "severity (harmony_break em) = fabs (valence em)"
    "ruleType (rhythm_break em) = ''rhythm''"
    "severity (rhythm_break em) = arousal em"
    by (simp_all add: dynamics_break_def harmony_break_def rhythm_break_def)
  have mag: "severity (harmony_break em) =
       (case valence em of NaN \<Rightarrow> NaN | Infty s \<Rightarrow> Infty False | Fin s q \<Rightarrow> Fin False q)"
    by (cases "valence em") (simp_all add: harmony_break_def)
  define terror where "terror = make_node 81 Fear (''terror'', lit (- (9 / 10)), lit 1) (lit 1)"
  have tf: "EmotionNode.intensity terror = lit 1" "valence terror = fmul (lit (- (9 / 10))) (lit 1)"
    "arousal terror = fmul (lit 1) (lit 1)"
    by (simp_all add: terror_def make_node_def Let_def)
  have tn: "name terror = ''terror''"
    using suffix_evals(1) by (simp add: terror_def make_node_name intensityLevels_def)
  have tc: "fgt (EmotionNode.intensity terror) (lit (8 / 10))"
    "flt (valence terror) (lit (- (5 / 10)))" "fgt (arousal terror) (lit (7 / 10))"
    unfolding tf by (rule terror_cmp)+
  have tv1: "EmotionNode.intensity terror = Fin False 1" unfolding tf by (rule terror_values)
  have tv2: "valence terror = Fin True (7549747 / 2 ^ 23)" unfolding tf by (rule terror_values)
  have tv3: "arousal terror = Fin False 1" unfolding tf by (rule terror_values)
  have tl: "fst (emotionToRuleBreaks p terror)
      = [dynamics_break terror, harmony_break terror, rhythm_break terror]"
    unfolding gen using tc by simp
  have tb: "map ruleType (fst (emotionToRuleBreaks p terror)) = [''dynamics'', ''harmony'', ''rhythm'']"
    unfolding tl by (simp add: dynamics_break_def harmony_break_def rhythm_break_def)
  have ts: "map severity (fst (emotionToRuleBreaks p terror))
      = [Fin False 1, Fin False (7549747 / 2 ^ 23), Fin False 1]"
    unfolding tl by (simp add: dynamics_break_def harmony_break_def rhythm_break_def tv1 tv2 tv3)
  define low where "low = make_node 17 Joy (''contentment'', lit (7 / 10), lit (3 / 10)) (lit (3 / 10))"
  have lf: "EmotionNode.intensity low = lit (3 / 10)" "valence low = fmul (lit (7 / 10)) (lit (3 / 10))"
    "arousal low = fmul (lit (3 / 10)) (lit (3 / 10))"
    by (simp_all add: low_def make_node_def Let_def)
  have ln: "name low = ''contentment_low''"
    using suffix_evals(3) by (simp add: low_def make_node_name intensityLevels_def)
  have lb: "fst (emotionToRuleBreaks p low) = []"
    unfolding gen by (simp add: lf contentment_low_cmp [simplified])
  have t: "\<exists>terror. initializeEmotions Map.empty 81 = Some terror \<and> name terror = ''terror''
         \<and> EmotionNode.intensity terror = lit 1
         \<and> valence terror = Fin True (7549747 / 2 ^ 23)
         \<and> map ruleType (fst (emotionToRuleBreaks p terror)) = [''dynamics'', ''harmony'', ''rhythm'']
         \<and> map severity (fst (emotionToRuleBreaks p terror))
             = [Fin False 1, Fin False (7549747 / 2 ^ 23), Fin False 1]"
  proof (intro exI conjI)
    show "initializeEmotions Map.empty 81 = Some terror" unfolding terror_def by (rule terror_entry)
  qed (rule tn tf(1) tv2 tb ts)+
  have l: "\<exists>low. initializeEmotions Map.empty 17 = Some low \<and> name low = ''contentment_low''
         \<and> EmotionNode.intensity low = lit (3 / 10)
         \<and> fst (emotionToRuleBreaks p low) = []"
  proof (intro exI conjI)
    show "initializeEmotions Map.empty 17 = Some low" unfolding low_def by (rule contentment_low_entry)
  qed (rule ln lf(1) lb)+
  show ?thesis using gen [of p em] len st fields(1-4) mag fields(5-6) t l by (intro conjI)
qed

theorem rule_breaks_thresholds_witness:
  "map ruleType (fst (emotionToRuleBreaks empty_processor sample_node))
     = [''dynamics'', ''harmony'', ''rhythm'']
   \<and> valence sample_node = Fin True (7549747 / 2 ^ 23)
   \<and> map severity (fst (emotionToRuleBreaks empty_processor sample_node))
     = [Fin False 1, Fin False (7549747 / 2 ^ 23), Fin False 1]
   \<and> m_ruleBreaks (snd (emotionToRuleBreaks empty_processor
       (make_node 17 Joy (''contentment'', lit (7 / 10), lit (3 / 10)) (lit (3 / 10))))) = []"
proof -
  note t = rule_breaks_thresholds [of empty_processor sample_node]
  note l = rule_breaks_thresholds [of empty_processor
      "make_node 17 Joy (''contentment'', lit (7 / 10), lit (3 / 10)) (lit (3 / 10))"]
  have e: "initializeEmotions Map.empty 81 = Some sample_node"
    unfolding sample_node_def by (rule terror_entry)
  have "\<exists>terror. initializeEmotions Map.empty 81 = Some terror \<and> name terror = ''terror''
         \<and> EmotionNode.intensity terror = lit 1
         \<and> valence terror = Fin True (7549747 / 2 ^ 23)
         \<and> map ruleType (fst (emotionToRuleBreaks empty_processor terror))
             = [''dynamics'', ''harmony'', ''rhythm'']
         \<and> map severity (fst (emotionToRuleBreaks empty_processor terror))
             = [Fin False 1, Fin False (7549747 / 2 ^ 23), Fin False 1]"
    using t by (elim conjE)
  then obtain terror where x: "initializeEmotions Map.empty 81 = Some terror"
    and y: "valence terror = Fin True (7549747 / 2 ^ 23)"
      "map ruleType (fst (emotionToRuleBreaks empty_processor terror))
             = [''dynamics'', ''harmony'', ''rhythm'']"
      "map severity (fst (emotionToRuleBreaks empty_processor terror))
             = [Fin False 1, Fin False (7549747 / 2 ^ 23), Fin False 1]"
    by (elim exE conjE)
  from x e have "terror = sample_node" by simp
  with y have a: "valence sample_node = Fin True (7549747 / 2 ^ 23)"
      "map ruleType (fst (emotionToRuleBreaks empty_processor sample_node))
             = [''dynamics'', ''harmony'', ''rhythm'']"
      "map severity (fst (emotionToRuleBreaks empty_processor sample_node))
             = [Fin False 1, Fin False (7549747 / 2 ^ 23), Fin False 1]"
    by simp_all
  have b: "m_ruleBreaks (snd (emotionToRuleBreaks empty_processor
       (make_node 17 Joy (''contentment'', lit (7 / 10), lit (3 / 10)) (lit (3 / 10))))) = []"
    using l contentment_low_cmp [simplified] by (simp add: make_node_def Let_def empty_processor_def)
  show ?thesis using a(2) a(1) a(3) b by (intro conjI)
qed

text \<open>
  C4.  compileMusicalParams starts from exactly the three entries tempo_modifier, mode and
  dynamics taken from the node's musical attributes, and then overlays the musicalImpact
  of each RuleBreak in sequence order: appending a RuleBreak overrides the mapping
  compiled so far with its musicalImpact, so the value found under a key is the one of
  the last RuleBreak that has the key, and the seed value when none has it.  With two
  RuleBreaks, a key of the second one carries the second one's value.
\<close>

theorem compile_params_overlay:
  "compileMusicalParams em [] =
     fmupd ''dynamics'' (AFloat (dynamics (musicalAttributes em)))
       (fmupd ''mode'' (AString (mode (musicalAttributes em)))
         (fmupd ''tempo_modifier'' (AFloat (tempoModifier (musicalAttributes em))) fmempty))
   \<and> fmdom (compileMusicalParams em []) = {|''tempo_modifier'', ''mode'', ''dynamics''|}
   \<and> compileMusicalParams em (rbs @ [rb]) = compileMusicalParams em rbs ++\<^sub>f musicalImpact rb
   \<and> fmlookup (compileMusicalParams em rbs) k =
       (case List.find (\<lambda>rb. k |\<in>| fmdom (musicalImpact rb)) (rev rbs) of
          Some rb \<Rightarrow> fmlookup (musicalImpact rb) k
        | None \<Rightarrow> fmlookup (compileMusicalParams em []) k)
   \<and> (fmlookup (musicalImpact rb2) k = Some v \<longrightarrow>
        fmlookup (compileMusicalParams em [rb1, rb2]) k = Some v)"
proof (intro conjI impI)
  show "compileMusicalParams em [] =
     fmupd ''dynamics'' (AFloat (dynamics (musicalAttributes em)))
       (fmupd ''mode'' (AString (mode (musicalAttributes em)))
         (fmupd ''tempo_modifier'' (AFloat (tempoModifier (musicalAttributes em))) fmempty))"
    by (simp add: compile_fold seed_params_def)
  show "fmdom (compileMusicalParams em []) = {|''tempo_modifier'', ''mode'', ''dynamics''|}"
    by (simp add: compile_fold seed_dom)
  show "compileMusicalParams em (rbs @ [rb]) = compileMusicalParams em rbs ++\<^sub>f musicalImpact rb"
    by (rule compile_snoc)
  show "fmlookup (compileMusicalParams em rbs) k =
       (case List.find (\<lambda>rb. k |\<in>| fmdom (musicalImpact rb)) (rev rbs) of
          Some rb \<Rightarrow> fmlookup (musicalImpact rb) k
        | None \<Rightarrow> fmlookup (compileMusicalParams em []) k)"
    unfolding compile_fold fold_fmadd_lookup by (simp split: option.splits)
next
  assume "fmlookup (musicalImpact rb2) k = Some v"
  then show "fmlookup (compileMusicalParams em [rb1, rb2]) k = Some v"
    by (simp add: compile_fold fmlookup_dom_iff)
qed

theorem compile_params_overlay_witness:
  "fmlookup (musicalImpact (dynamics_break sample_node)) ''velocity_max'' = Some (AInt 127)
   \<and> fmlookup (musicalImpact sample_break) ''velocity_max'' = Some (AInt 64)
   \<and> fmlookup (compileMusicalParams sample_node [dynamics_break sample_node, sample_break])
        ''velocity_max'' = Some (AInt 64)"
proof -
  have h: "fmlookup (musicalImpact sample_break) ''velocity_max'' = Some (AInt 64)"
    by (simp add: sample_break_def)
  from compile_params_overlay [of sample_node "[]" sample_break "''velocity_max''" sample_break
      "AInt 64" "dynamics_break sample_node"]
  have "fmlookup (musicalImpact sample_break) ''velocity_max'' = Some (AInt 64) \<longrightarrow>
        fmlookup (compileMusicalParams sample_node [dynamics_break sample_node, sample_break])
          ''velocity_max'' = Some (AInt 64)"
    by (elim conjE)
  with h have "fmlookup (compileMusicalParams sample_node [dynamics_break sample_node, sample_break])
          ''velocity_max'' = Some (AInt 64)" by (rule rev_mp)
  moreover have "fmlookup (musicalImpact (dynamics_break sample_node)) ''velocity_max'' = Some (AInt 127)"
    by (simp add: dynamics_break_def)
  ultimately show ?thesis using h by (intro conjI)
qed

text \<open>
  C10.  The mapping compiled for any node and any RuleBreak sequence has the keys
  tempo_modifier, mode and dynamics, hence at least three entries; and processIntent
  returns the empty mapping exactly when the emotion lookup returned the null pointer.
\<close>

theorem params_empty_iff_lookup_failed:
  "{|''tempo_modifier'', ''mode'', ''dynamics''|} |\<subseteq>| fmdom (compileMusicalParams em rbs)
   \<and> 3 \<le> fcard (fmdom (compileMusicalParams em rbs))
   \<and> emotion (fst (processIntent p w)) = fst (processWound p w)
   \<and> (musicalParams (fst (processIntent p w)) = fmempty \<longleftrightarrow> fst (processWound p w) = None)"
proof (intro conjI)
  show sub: "{|''tempo_modifier'', ''mode'', ''dynamics''|} |\<subseteq>| fmdom (compileMusicalParams em rbs)"
    using compile_dom [of em rbs] by (simp only: seed_dom)
  have "fcard {|''tempo_modifier'', ''mode'', ''dynamics''|} = 3"
    by (simp add: fcard_finsert_if)
  then show "3 \<le> fcard (fmdom (compileMusicalParams em rbs))"
    using fcard_mono [OF sub] by simp
  show "emotion (fst (processIntent p w)) = fst (processWound p w)" by simp
  show "musicalParams (fst (processIntent p w)) = fmempty \<longleftrightarrow> fst (processWound p w) = None"
    by (auto simp: processIntent_params compile_nonempty split: option.splits)
qed

theorem params_empty_iff_lookup_failed_witness:
  "fst (processWound empty_processor sample_wound) = None
   \<and> musicalParams (fst (processIntent empty_processor sample_wound)) = fmempty
   \<and> 3 \<le> fcard (fmdom (compileMusicalParams sample_node [sample_break]))"
proof -
  note th = params_empty_iff_lookup_failed [of sample_node "[sample_break]" empty_processor sample_wound]
  have n: "fst (processWound empty_processor sample_wound) = None" by (rule processWound_empty)
  from th have "musicalParams (fst (processIntent empty_processor sample_wound)) = fmempty
      \<longleftrightarrow> fst (processWound empty_processor sample_wound) = None" by (elim conjE)
  with n have "musicalParams (fst (processIntent empty_processor sample_wound)) = fmempty" by simp
  moreover from th have "3 \<le> fcard (fmdom (compileMusicalParams sample_node [sample_break]))"
    by (elim conjE)
  ultimately show ?thesis using n by (intro conjI)
qed

text \<open>
  C9.  On one pipeline instance, a call of processIntent with a Wound returns the same
  IntentResult (wound, matched emotion, RuleBreak sequence, parameter mapping) whatever
  calls of the public member functions were made before it, in particular after an
  earlier call with the same Wound and any calls in between.  Calls never change the
  engine; they only extend the wound history and the rule-break log at the end, and
  replacing both logs by any others leaves the result of processIntent unchanged.
\<close>

theorem process_intent_repeatable:
  "fst (processIntent (after_calls cs (snd (processIntent p w))) w) = fst (processIntent p w)
   \<and> fst (processIntent (after_calls cs p) w) = fst (processIntent p w)
   \<and> m_engine (after_calls cs p) = m_engine p
   \<and> prefix (m_woundHistory p) (m_woundHistory (after_calls cs p))
   \<and> prefix (m_ruleBreaks p) (m_ruleBreaks (after_calls cs p))
   \<and> m_woundHistory (snd (processIntent p w)) = m_woundHistory p @ [w]
   \<and> m_ruleBreaks (snd (processIntent p w)) = m_ruleBreaks p @ ruleBreaks (fst (processIntent p w))
   \<and> m_woundHistory (snd (processWound p w)) = m_woundHistory p @ [w]
   \<and> m_ruleBreaks (snd (processWound p w)) = m_ruleBreaks p
   \<and> fst (processIntent (p\<lparr> m_woundHistory := h, m_ruleBreaks := l \<rparr>) w) = fst (processIntent p w)"
proof -
  have e1: "m_engine (after_calls cs (snd (processIntent p w))) = m_engine p"
    by (simp add: after_calls_engine processIntent_state)
  have a: "fst (processIntent (after_calls cs (snd (processIntent p w))) w) = fst (processIntent p w)"
    using e1 by (rule processIntent_engine_only)
  have b: "fst (processIntent (after_calls cs p) w) = fst (processIntent p w)"
    using after_calls_engine by (rule processIntent_engine_only)
  have c: "m_woundHistory (snd (processIntent p w)) = m_woundHistory p @ [w]"
    "m_ruleBreaks (snd (processIntent p w)) = m_ruleBreaks p @ ruleBreaks (fst (processIntent p w))"
    by (subst processIntent_state, simp)+
  have d: "m_woundHistory (snd (processWound p w)) = m_woundHistory p @ [w]"
    "m_ruleBreaks (snd (processWound p w)) = m_ruleBreaks p"
    by (simp_all add: processWound_state)
  show ?thesis
    using a b after_calls_engine [of cs p] after_calls_logs [of p cs] c d processIntent_logs [where p = p and h = h and l = l and w = w]
    by (intro conjI) simp_all
qed

theorem process_intent_repeatable_witness:
  "fst (processIntent
          (after_calls [CallProcessWound sample_wound, CallEmotionToRuleBreaks sample_node]
             (snd (processIntent empty_processor sample_wound)))
          sample_wound)
     = fst (processIntent empty_processor sample_wound)
   \<and> m_woundHistory (snd (processIntent empty_processor sample_wound)) = [sample_wound]"
proof -
  note th = process_intent_repeatable [where p = empty_processor and w = sample_wound
      and cs = "[CallProcessWound sample_wound, CallEmotionToRuleBreaks sample_node]"
      and h = "[]" and l = "[]"]
  from th have a: "fst (processIntent
          (after_calls [CallProcessWound sample_wound, CallEmotionToRuleBreaks sample_node]
             (snd (processIntent empty_processor sample_wound)))
          sample_wound)
     = fst (processIntent empty_processor sample_wound)" by (elim conjE)
  from th have "m_woundHistory (snd (processIntent empty_processor sample_wound))
      = m_woundHistory empty_processor @ [sample_wound]" by (elim conjE)
  then have b: "m_woundHistory (snd (processIntent empty_processor sample_wound)) = [sample_wound]"
    by (simp add: empty_processor_def)
  show ?thesis using a b by (rule conjI)
qed

text \<open>
  C2.  On a constructed pipeline, processWound returns, for every Wound, a pointer to the
  catalog entry whose name is given by the priority rule of the specification on the
  lower-cased description: "loss" or "grief" gives "grief"; else "anger" or "rage" gives
  "rage"; else "fear" or "anxiety" gives "anxiety"; else "melancholy".  The lower-casing
  of the specification is the table of the 26 letters, and the code's conversion agrees
  with it on every character: capitals become small letters, the characters next to the
  letters in the code table stay.  The four descriptions of the specification classify as
  "grief", "rage", "anxiety", "melancholy"; a description in capitals classifies as the
  same description in small letters; when triggers of two rules occur, the earlier rule
  wins.  processWound on "PURE RAGE INSIDE" looks up "rage".
\<close>

theorem wound_classification:
  "(catalog_engine (m_engine p) \<longrightarrow>
      (\<exists>k n. fst (processWound p w) = Some (k, n) \<and> m_nodes (m_engine p) k = Some n
         \<and> name n = classify_spec (Wound.description w)))
   \<and> fst (processWound p w) = findEmotionByName (m_engine p) (classify_spec (Wound.description w))
   \<and> tolower c = spec_lower c
   \<and> map tolower ''@AZ[ Pure RAGE, Loss & Fear {1}'' = ''@az[ pure rage, loss & fear {1}''
   \<and> classify_spec ''I feel overwhelming loss'' = ''grief''
   \<and> classify_spec ''pure rage inside'' = ''rage''
   \<and> classify_spec ''constant anxiety'' = ''anxiety''
   \<and> classify_spec ''a quiet afternoon'' = ''melancholy''
   \<and> classify_spec ''PURE RAGE INSIDE'' = ''rage''
   \<and> classify_spec ''Constant Anxiety'' = ''anxiety''
   \<and> classify_spec ''GRIEF'' = ''grief''
   \<and> classify_spec ''fear of loss'' = ''grief''
   \<and> classify_spec ''anger and anxiety'' = ''rage''
   \<and> fst (processWound p capital_wound) = findEmotionByName (m_engine p) ''rage''"
proof (intro conjI impI)
  assume "catalog_engine (m_engine p)"
  then show "\<exists>k n. fst (processWound p w) = Some (k, n) \<and> m_nodes (m_engine p) k = Some n
         \<and> name n = classify_spec (Wound.description w)"
    by (rule processWound_found)
next
  show "fst (processWound p w) = findEmotionByName (m_engine p) (classify_spec (Wound.description w))"
    by (rule processWound_classify)
next
  show "tolower c = spec_lower c" by (rule tolower_spec_lower)
next
  have "Wound.description capital_wound = ''PURE RAGE INSIDE''" by (simp add: capital_wound_def)
  then have "classify_spec (Wound.description capital_wound) = ''rage''"
    by (simp only: classify_capitals(1))
  then show "fst (processWound p capital_wound) = findEmotionByName (m_engine p) ''rage''"
    by (simp only: processWound_classify)
qed (rule classify_examples classify_capitals)+

theorem wound_classification_witness:
  "catalog_engine (m_engine sample_processor)
   \<and> Wound.description capital_wound = ''PURE RAGE INSIDE''
   \<and> tolower (CHR ''R'') = CHR ''r''
   \<and> (\<exists>k n. fst (processWound sample_processor capital_wound) = Some (k, n)
         \<and> initializeEmotions Map.empty k = Some n \<and> name n = ''rage'')"
proof -
  note th = wound_classification [where p = sample_processor and w = capital_wound
      and c = "CHR ''R''"]
  have c: "catalog_engine (m_engine sample_processor)" by (rule sample_processor_engine)
  have d: "Wound.description capital_wound = ''PURE RAGE INSIDE''" by (simp add: capital_wound_def)
  have imp: "catalog_engine (m_engine sample_processor) \<longrightarrow>
      (\<exists>k n. fst (processWound sample_processor capital_wound) = Some (k, n)
         \<and> m_nodes (m_engine sample_processor) k = Some n
         \<and> name n = classify_spec (Wound.description capital_wound))"
    using th by (elim conjE)
  have r: "classify_spec ''PURE RAGE INSIDE'' = ''rage''" using th by (elim conjE)
  have "tolower (CHR ''R'') = spec_lower (CHR ''R'')" using th by (elim conjE)
  also have "spec_lower (CHR ''R'') = CHR ''r''" by code_simp
  finally have lc: "tolower (CHR ''R'') = CHR ''r''" .
  from imp c have "\<exists>k n. fst (processWound sample_processor capital_wound) = Some (k, n)
         \<and> m_nodes (m_engine sample_processor) k = Some n
         \<and> name n = classify_spec (Wound.description capital_wound)" by (rule mp)
  then have "\<exists>k n. fst (processWound sample_processor capital_wound) = Some (k, n)
         \<and> initializeEmotions Map.empty k = Some n \<and> name n = ''rage''"
    unfolding d r sample_processor_engine(2) .
  with c d lc show ?thesis by (intro conjI)
qed

text \<open>
  C5.  On a constructed pipeline processIntent returns a non-null emotion pointer for
  every Wound; the names "grief", "rage", "anxiety" and "melancholy" are found there and
  are entries of the tier 1.0.  On any pipeline, when the lookup returns the null pointer
  the result carries the null pointer, no RuleBreaks and the empty parameter mapping, and
  the rule-break log is unchanged.  Absence is a value: findEmotionByName returns the null
  pointer exactly when no entry has the name, getEmotion exactly when the id is not a key,
  and getNearbyEmotions returns the empty sequence for an id that is not a key.
\<close>

theorem lookup_never_fails:
  "(catalog_engine (m_engine p) \<longrightarrow> emotion (fst (processIntent p w)) \<noteq> None)
   \<and> (catalog_engine e \<longrightarrow>
        (\<forall>nm\<in>{''grief'', ''rage'', ''anxiety'', ''melancholy''}.
           \<exists>k n. findEmotionByName e nm = Some (k, n) \<and> m_nodes e k = Some n \<and> name n = nm
             \<and> EmotionNode.intensity n = lit 1))
   \<and> (fst (processWound p w) = None \<longrightarrow>
        emotion (fst (processIntent p w)) = None
        \<and> ruleBreaks (fst (processIntent p w)) = []
        \<and> musicalParams (fst (processIntent p w)) = fmempty
        \<and> wound (fst (processIntent p w)) = w
        \<and> m_ruleBreaks (snd (processIntent p w)) = m_ruleBreaks p)
   \<and> (findEmotionByName e nm = None \<longleftrightarrow> (\<forall>(k, n)\<in>set (entries e). name n \<noteq> nm))
   \<and> (getEmotion e i = None \<longleftrightarrow> m_nodes e i = None)
   \<and> (m_nodes e i = None \<longrightarrow> getNearbyEmotions e i t = [])"
proof (intro conjI impI ballI)
  assume "catalog_engine (m_engine p)"
  from processWound_found [OF this, of w]
  show "emotion (fst (processIntent p w)) \<noteq> None" by auto
next
  fix nm assume "catalog_engine e" "nm \<in> {''grief'', ''rage'', ''anxiety'', ''melancholy''}"
  then show "\<exists>k n. findEmotionByName e nm = Some (k, n) \<and> m_nodes e k = Some n \<and> name n = nm
             \<and> EmotionNode.intensity n = lit 1"
    by (rule trigger_names)
next
  assume n: "fst (processWound p w) = None"
  show "emotion (fst (processIntent p w)) = None" using n by simp
  show "ruleBreaks (fst (processIntent p w)) = []" using n by (simp add: processIntent_breaks)
  show "musicalParams (fst (processIntent p w)) = fmempty" using n by (simp add: processIntent_params)
  show "wound (fst (processIntent p w)) = w" by simp
  show "m_ruleBreaks (snd (processIntent p w)) = m_ruleBreaks p"
    using n by (subst processIntent_state) (simp add: processIntent_breaks)
next
  show "findEmotionByName e nm = None \<longleftrightarrow> (\<forall>(k, n)\<in>set (entries e). name n \<noteq> nm)"
    by (rule findEmotionByName_None)
  show "getEmotion e i = None \<longleftrightarrow> m_nodes e i = None" by (simp add: getEmotion_def)
next
  assume "m_nodes e i = None"
  then show "getNearbyEmotions e i t = []" by (simp add: getNearbyEmotions_def getEmotion_def)
qed

theorem lookup_never_fails_witness:
  "catalog_engine (m_engine sample_processor)
   \<and> emotion (fst (processIntent sample_processor sample_wound)) \<noteq> None
   \<and> fst (processWound empty_processor sample_wound) = None
   \<and> ruleBreaks (fst (processIntent empty_processor sample_wound)) = []
   \<and> musicalParams (fst (processIntent empty_processor sample_wound)) = fmempty
   \<and> m_nodes (m_engine empty_processor) 7 = None
   \<and> getNearbyEmotions (m_engine empty_processor) 7 (lit 1) = []"
proof -
  have c: "catalog_engine (m_engine sample_processor)" by (rule sample_processor_engine)
  have n: "fst (processWound empty_processor sample_wound) = None" by (rule processWound_empty)
  have m: "m_nodes (m_engine empty_processor) 7 = None" by (simp add: empty_processor_def)
  note t1 = lookup_never_fails [where p = sample_processor and w = sample_wound
      and e = "m_engine empty_processor" and i = 7 and t = "lit 1" and nm = "''grief''"]
  note t2 = lookup_never_fails [where p = empty_processor and w = sample_wound
      and e = "m_engine empty_processor" and i = 7 and t = "lit 1" and nm = "''grief''"]
  have "catalog_engine (m_engine sample_processor) \<longrightarrow>
      emotion (fst (processIntent sample_processor sample_wound)) \<noteq> None"
    using t1 by (elim conjE)
  from this c have a: "emotion (fst (processIntent sample_processor sample_wound)) \<noteq> None"
    by (rule mp)
  have "fst (processWound empty_processor sample_wound) = None \<longrightarrow>
        emotion (fst (processIntent empty_processor sample_wound)) = None
        \<and> ruleBreaks (fst (processIntent empty_processor sample_wound)) = []
        \<and> musicalParams (fst (processIntent empty_processor sample_wound)) = fmempty
        \<and> wound (fst (processIntent empty_processor sample_wound)) = sample_wound
        \<and> m_ruleBreaks (snd (processIntent empty_processor sample_wound)) = m_ruleBreaks empty_processor"
    using t2 by (elim conjE)
  from this n have deg: "emotion (fst (processIntent empty_processor sample_wound)) = None
        \<and> ruleBreaks (fst (processIntent empty_processor sample_wound)) = []
        \<and> musicalParams (fst (processIntent empty_processor sample_wound)) = fmempty
        \<and> wound (fst (processIntent empty_processor sample_wound)) = sample_wound
        \<and> m_ruleBreaks (snd (processIntent empty_processor sample_wound)) = m_ruleBreaks empty_processor"
    by (rule mp)
  have b1: "ruleBreaks (fst (processIntent empty_processor sample_wound)) = []"
    using deg by (elim conjE)
  have b2: "musicalParams (fst (processIntent empty_processor sample_wound)) = fmempty"
    using deg by (elim conjE)
  have "m_nodes (m_engine empty_processor) 7 = None \<longrightarrow>
      getNearbyEmotions (m_engine empty_processor) 7 (lit 1) = []"
    using t2 by (elim conjE)
  from this m have g: "getNearbyEmotions (m_engine empty_processor) 7 (lit 1) = []"
    by (rule mp)
  show ?thesis using c a n b1 b2 m g by (intro conjI)
qed

text \<open>
  C7.  calculateDistance is the square root of the sum of the three squared coordinate
  differences (valence, arousal, intensity), each operation in single precision, and
  swapping the arguments gives the same value.  The square root is taken, to single
  precision: when the sum is a normal number s and the result is finite, the result d is
  positive and differs from the real number sqrt(s) by at most d / 2^24.  The points
  (3, 4, 0) and (0, 0, 0) are at distance 5, the points (1, 2, 3) and (3, 5, -3) at
  distance 7, the points (1, 0, 1) and (0, 0, 0) at distance 11863283 / 2^23, the single
  precision value of the square root of 2.  For catalog entries a and b the values
  distance(a,b) and distance(b,a) compare equal, distance(a,a) compares equal to 0, and
  distance(a,b) compares equal to 0 exactly when the three coordinates of a and b compare
  equal.  Two entries with different ids can have distance 0.  The entries "grief"
  (id 27) and "gloom" (id 39) are at distance 16777215 / 2^25.
\<close>

theorem distance_properties:
  "calculateDistance x y = fsqrt (squared_distance x y)
   \<and> squared_distance x y =
       fadd (fadd (fmul (fsub (valence x) (valence y)) (fsub (valence x) (valence y)))
                  (fmul (fsub (arousal x) (arousal y)) (fsub (arousal x) (arousal y))))
            (fmul (fsub (EmotionNode.intensity x) (EmotionNode.intensity y))
                  (fsub (EmotionNode.intensity x) (EmotionNode.intensity y)))
   \<and> (squared_distance x y = Fin False s \<and> 1 / 2 ^ 126 \<le> s \<and> calculateDistance x y = Fin t d \<longrightarrow>
         \<not> t \<and> 0 < d \<and> \<bar>real_of_rat d - sqrt (real_of_rat s)\<bar> \<le> real_of_rat d / 2 ^ 24)
   \<and> calculateDistance (probe (lit 3) (lit 4) (lit 0)) (probe (lit 0) (lit 0) (lit 0)) = Fin False 5
   \<and> calculateDistance (probe (lit 1) (lit 2) (lit 3)) (probe (lit 3) (lit 5) (lit (- 3))) = Fin False 7
   \<and> calculateDistance (probe (lit 1) (lit 0) (lit 1)) (probe (lit 0) (lit 0) (lit 0))
       = Fin False (11863283 / 2 ^ 23)
   \<and> calculateDistance x y = calculateDistance y x
   \<and> (initializeEmotions Map.empty i = Some a \<and> initializeEmotions Map.empty j = Some b \<longrightarrow>
         feq (calculateDistance a b) (calculateDistance b a)
       \<and> feq (calculateDistance a a) (Fin False 0)
       \<and> (feq (calculateDistance a b) (Fin False 0) \<longleftrightarrow> same_point a b))
   \<and> (\<exists>i j a b. i \<noteq> j \<and> initializeEmotions Map.empty i = Some a
         \<and> initializeEmotions Map.empty j = Some b
         \<and> feq (calculateDistance a b) (Fin False 0))
   \<and> initializeEmotions Map.empty 27 = Some grief
   \<and> initializeEmotions Map.empty 39 = Some gloom
   \<and> calculateDistance grief gloom = Fin False (16777215 / 2 ^ 25)"
proof (intro conjI impI)
  show "calculateDistance x y = fsqrt (squared_distance x y)"
    by (rule calculateDistance_squared)
  show "squared_distance x y =
       fadd (fadd (fmul (fsub (valence x) (valence y)) (fsub (valence x) (valence y)))
                  (fmul (fsub (arousal x) (arousal y)) (fsub (arousal x) (arousal y))))
            (fmul (fsub (EmotionNode.intensity x) (EmotionNode.intensity y))
                  (fsub (EmotionNode.intensity x) (EmotionNode.intensity y)))"
    by (simp add: squared_distance_def Let_def)
  show "calculateDistance x y = calculateDistance y x" by (rule calculateDistance_sym)
  show "calculateDistance (probe (lit 3) (lit 4) (lit 0)) (probe (lit 0) (lit 0) (lit 0)) = Fin False 5"
    by (rule distance_examples)
  show "calculateDistance (probe (lit 1) (lit 2) (lit 3)) (probe (lit 3) (lit 5) (lit (- 3))) = Fin False 7"
    by (rule distance_examples)
  show "calculateDistance (probe (lit 1) (lit 0) (lit 1)) (probe (lit 0) (lit 0) (lit 0))
       = Fin False (11863283 / 2 ^ 23)"
    by (rule distance_examples)
  show "initializeEmotions Map.empty 27 = Some grief" by (rule grief_entry)
  show "initializeEmotions Map.empty 39 = Some gloom" by (rule gloom_bitterness)
  show "calculateDistance grief gloom = Fin False (16777215 / 2 ^ 25)"
    by (rule distance_examples)
next
  assume h: "squared_distance x y = Fin False s \<and> 1 / 2 ^ 126 \<le> s \<and> calculateDistance x y = Fin t d"
  from h have sq: "squared_distance x y = Fin False s" by (elim conjE)
  from h have normal: "1 / 2 ^ 126 \<le> s" by (elim conjE)
  from h have "calculateDistance x y = Fin t d" by (elim conjE)
  then have "fsqrt (Fin False s) = Fin t d" unfolding calculateDistance_squared sq .
  with normal have r: "\<not> t \<and> 0 < d \<and> \<bar>real_of_rat d - sqrt (real_of_rat s)\<bar> \<le> real_of_rat d / 2 ^ 24"
    by (rule fsqrt_accuracy)
  from r show "\<not> t" by (elim conjE)
  from r show "0 < d" by (elim conjE)
  from r show "\<bar>real_of_rat d - sqrt (real_of_rat s)\<bar> \<le> real_of_rat d / 2 ^ 24" by (elim conjE)
next
  assume h: "initializeEmotions Map.empty i = Some a \<and> initializeEmotions Map.empty j = Some b"
  then have ok: "point_ok a" "point_ok b" by (auto intro: catalog_point_ok)
  have "feq (calculateDistance a b) (calculateDistance a b)"
    using distance_nonneg [OF ok] by (rule feq_refl_nonneg)
  then show "feq (calculateDistance a b) (calculateDistance b a)"
    by (simp add: calculateDistance_sym [of b a])
  show "feq (calculateDistance a a) (Fin False 0)"
    using distance_zero_iff [OF ok(1) ok(1)] same_point_refl [OF ok(1)] by simp
  show "feq (calculateDistance a b) (Fin False 0) \<longleftrightarrow> same_point a b"
    using ok by (rule distance_zero_iff)
next
  have "feq (calculateDistance gloom bitterness) (Fin False 0)"
    using distance_zero_iff [of gloom bitterness] gloom_bitterness
    by (simp add: catalog_point_ok)
  moreover have "(39::int) \<noteq> 78" by simp
  ultimately show "\<exists>i j a b. i \<noteq> j \<and> initializeEmotions Map.empty i = Some a
         \<and> initializeEmotions Map.empty j = Some b
         \<and> feq (calculateDistance a b) (Fin False 0)"
    using gloom_bitterness(1,2) by blast
qed

theorem distance_properties_witness:
  "initializeEmotions Map.empty 27 = Some grief \<and> initializeEmotions Map.empty 39 = Some gloom
   \<and> squared_distance grief gloom = Fin False (8388607 / 2 ^ 25)
   \<and> calculateDistance grief gloom = Fin False (16777215 / 2 ^ 25)
   \<and> \<bar>real_of_rat (16777215 / 2 ^ 25) - sqrt (real_of_rat (8388607 / 2 ^ 25))\<bar>
       \<le> real_of_rat (16777215 / 2 ^ 25) / 2 ^ 24
   \<and> feq (calculateDistance grief gloom) (calculateDistance gloom grief)
   \<and> feq (calculateDistance grief grief) (Fin False 0)
   \<and> \<not> same_point grief gloom
   \<and> \<not> feq (calculateDistance grief gloom) (Fin False 0)"
proof -
  note th = distance_properties [where i = 27 and j = 39 and a = grief and b = gloom
      and x = grief and y = gloom and s = "8388607 / 2 ^ 25" and t = False
      and d = "16777215 / 2 ^ 25"]
  have g: "initializeEmotions Map.empty 27 = Some grief" using th by (elim conjE)
  have l: "initializeEmotions Map.empty 39 = Some gloom" using th by (elim conjE)
  have v: "calculateDistance grief gloom = Fin False (16777215 / 2 ^ 25)" using th by (elim conjE)
  have q: "squared_distance grief gloom = Fin False (8388607 / 2 ^ 25)" by (rule distance_examples)
  have n: "(1 :: rat) / 2 ^ 126 \<le> 8388607 / 2 ^ 25" by simp
  have p: "\<not> same_point grief gloom" by (rule distance_examples)
  have "squared_distance grief gloom = Fin False (8388607 / 2 ^ 25)
        \<and> (1 :: rat) / 2 ^ 126 \<le> 8388607 / 2 ^ 25
        \<and> calculateDistance grief gloom = Fin False (16777215 / 2 ^ 25) \<longrightarrow>
         \<not> False \<and> (0 :: rat) < 16777215 / 2 ^ 25
         \<and> \<bar>real_of_rat (16777215 / 2 ^ 25) - sqrt (real_of_rat (8388607 / 2 ^ 25))\<bar>
             \<le> real_of_rat (16777215 / 2 ^ 25) / 2 ^ 24"
    using th by (elim conjE)
  moreover have "squared_distance grief gloom = Fin False (8388607 / 2 ^ 25)
        \<and> (1 :: rat) / 2 ^ 126 \<le> 8388607 / 2 ^ 25
        \<and> calculateDistance grief gloom = Fin False (16777215 / 2 ^ 25)"
    using q n v by (intro conjI)
  ultimately have "\<not> False \<and> (0 :: rat) < 16777215 / 2 ^ 25
         \<and> \<bar>real_of_rat (16777215 / 2 ^ 25) - sqrt (real_of_rat (8388607 / 2 ^ 25))\<bar>
             \<le> real_of_rat (16777215 / 2 ^ 25) / 2 ^ 24"
    by (rule mp)
  then have acc: "\<bar>real_of_rat (16777215 / 2 ^ 25) - sqrt (real_of_rat (8388607 / 2 ^ 25))\<bar>
             \<le> real_of_rat (16777215 / 2 ^ 25) / 2 ^ 24"
    by (elim conjE)
  have h: "initializeEmotions Map.empty 27 = Some grief \<and> initializeEmotions Map.empty 39 = Some gloom"
    using g l by (rule conjI)
  have "initializeEmotions Map.empty 27 = Some grief \<and> initializeEmotions Map.empty 39 = Some gloom \<longrightarrow>
         feq (calculateDistance grief gloom) (calculateDistance gloom grief)
       \<and> feq (calculateDistance grief grief) (Fin False 0)
       \<and> (feq (calculateDistance grief gloom) (Fin False 0) \<longleftrightarrow> same_point grief gloom)"
    using th by (elim conjE)
  from this h have c: "feq (calculateDistance grief gloom) (calculateDistance gloom grief)
       \<and> feq (calculateDistance grief grief) (Fin False 0)
       \<and> (feq (calculateDistance grief gloom) (Fin False 0) \<longleftrightarrow> same_point grief gloom)"
    by (rule mp)
  from c have c1: "feq (calculateDistance grief gloom) (calculateDistance gloom grief)"
    by (elim conjE)
  from c have c2: "feq (calculateDistance grief grief) (Fin False 0)"
    by (elim conjE)
  from c have c3: "feq (calculateDistance grief gloom) (Fin False 0) \<longleftrightarrow> same_point grief gloom"
    by (elim conjE)
  have nz: "\<not> feq (calculateDistance grief gloom) (Fin False 0)"
  proof
    assume "feq (calculateDistance grief gloom) (Fin False 0)"
    with c3 have "same_point grief gloom" by (rule iffD1)
    with p show False by (rule notE)
  qed
  show ?thesis using g l q v acc c1 c2 p nz by (intro conjI)
qed

text \<open>
  C8.  getNearbyEmotions(i, t) never returns the entry with key i; every entry it returns
  is stored in the container under a key other than i and lies at a distance from the
  source that compares less than t; when the container's iteration visits every key
  once, the result holds exactly the entries other than i within that bound, each once;
  and for an id that is not a key the result is empty.
\<close>

theorem nearby_emotions_contract:
  "(\<forall>n. (i, n) \<notin> set (getNearbyEmotions e i t))
   \<and> (\<forall>(k, n)\<in>set (getNearbyEmotions e i t).
        k \<noteq> i \<and> m_nodes e k = Some n
        \<and> (\<exists>src. m_nodes e i = Some src \<and> flt (calculateDistance src n) t))
   \<and> (iteration_ok e \<and> m_nodes e i = Some src \<longrightarrow>
        set (getNearbyEmotions e i t) =
          {(k, n). m_nodes e k = Some n \<and> k \<noteq> i \<and> flt (calculateDistance src n) t}
        \<and> distinct (getNearbyEmotions e i t))
   \<and> (m_nodes e i = None \<longrightarrow> getNearbyEmotions e i t = [])"
proof (intro conjI impI allI ballI)
  fix n show "(i, n) \<notin> set (getNearbyEmotions e i t)" by (simp add: nearby_mem)
next
  fix x assume "x \<in> set (getNearbyEmotions e i t)"
  then show "case x of (k, n) \<Rightarrow> k \<noteq> i \<and> m_nodes e k = Some n
        \<and> (\<exists>src. m_nodes e i = Some src \<and> flt (calculateDistance src n) t)"
  proof -
    obtain k n where x: "x = (k, n)" by (cases x) auto
    with \<open>x \<in> set (getNearbyEmotions e i t)\<close> have "(k, n) \<in> set (getNearbyEmotions e i t)" by simp
    then show ?thesis unfolding nearby_mem x by (auto simp: entries_mem)
  qed
next
  assume h: "iteration_ok e \<and> m_nodes e i = Some src"
  then show "set (getNearbyEmotions e i t) =
          {(k, n). m_nodes e k = Some n \<and> k \<noteq> i \<and> flt (calculateDistance src n) t}"
    by (auto simp: nearby_mem entries_set)
  from h have "distinct (entries e)" by (intro entries_distinct) (simp add: iteration_ok_def)
  then show "distinct (getNearbyEmotions e i t)"
    by (simp add: getNearbyEmotions_def getEmotion_def split: option.splits)
next
  assume "m_nodes e i = None"
  then show "getNearbyEmotions e i t = []" by (simp add: getNearbyEmotions_def getEmotion_def)
qed

theorem nearby_emotions_contract_witness:
  "iteration_ok small_engine \<and> m_nodes small_engine 39 = Some gloom
   \<and> set (getNearbyEmotions small_engine 39 (lit (1 / 10))) =
        {(k, n). m_nodes small_engine k = Some n \<and> k \<noteq> 39
           \<and> flt (calculateDistance gloom n) (lit (1 / 10))}
   \<and> distinct (getNearbyEmotions small_engine 39 (lit (1 / 10)))
   \<and> map fst (getNearbyEmotions small_engine 39 (lit (1 / 10))) = [78]
   \<and> m_nodes small_engine 5 = None
   \<and> getNearbyEmotions small_engine 5 (lit (1 / 10)) = []"
proof -
  note t1 = nearby_emotions_contract [where e = small_engine and i = 39 and t = "lit (1 / 10)"
      and src = gloom]
  note t2 = nearby_emotions_contract [where e = small_engine and i = 5 and t = "lit (1 / 10)"
      and src = gloom]
  have h: "iteration_ok small_engine \<and> m_nodes small_engine 39 = Some gloom"
    using small_engine_ok(1,2) by (rule conjI)
  have "iteration_ok small_engine \<and> m_nodes small_engine 39 = Some gloom \<longrightarrow>
        set (getNearbyEmotions small_engine 39 (lit (1 / 10))) =
          {(k, n). m_nodes small_engine k = Some n \<and> k \<noteq> 39
             \<and> flt (calculateDistance gloom n) (lit (1 / 10))}
        \<and> distinct (getNearbyEmotions small_engine 39 (lit (1 / 10)))"
    using t1 by (elim conjE)
  from this h have a: "set (getNearbyEmotions small_engine 39 (lit (1 / 10))) =
          {(k, n). m_nodes small_engine k = Some n \<and> k \<noteq> 39
             \<and> flt (calculateDistance gloom n) (lit (1 / 10))}
        \<and> distinct (getNearbyEmotions small_engine 39 (lit (1 / 10)))"
    by (rule mp)
  have "m_nodes small_engine 5 = None \<longrightarrow> getNearbyEmotions small_engine 5 (lit (1 / 10)) = []"
    using t2 by (elim conjE)
  from this small_engine_ok(3) have b: "getNearbyEmotions small_engine 5 (lit (1 / 10)) = []"
    by (rule mp)
  show ?thesis using h a small_engine_nearby small_engine_ok(3) b by (intro conjI) (elim conjE, assumption)+
qed

end
